theory Spec2Isabelle
  imports Main "HOL-Library.Word"
begin

unbundle bit_operations_syntax

section \<open>Browser-session broker: browser-sessions/server.js\<close>

subsection \<open>Data model\<close>

text \<open>
  A token is the hex string returned by \<^verbatim>\<open>generateSecureToken()\<close>; a timestamp is the
  millisecond count returned by \<^verbatim>\<open>Date.now()\<close>. JavaScript \<^verbatim>\<open>null\<close>/\<^verbatim>\<open>undefined\<close> in a
  field is \<open>None\<close>.
\<close>

type_synonym token = string

text \<open>
  A JavaScript string is a sequence of 16-bit code units. Strings that only ever hold
  what the server itself produces (tokens, session ids, paths, cookie values) are written
  as \<open>string\<close>; strings that come from a request body, a query parameter or a page
  are \<open>jsstring\<close>. \<open>js\<close> embeds a literal.
\<close>

type_synonym jsstring = "16 word list"

definition js :: "string \<Rightarrow> jsstring" where
  "js cs = map (\<lambda>c. of_nat (of_char c)) cs"

text \<open>One element of the \<^verbatim>\<open>BROWSERS\<close> pool (field \<^verbatim>\<open>id\<close> is \<open>bid\<close> here).\<close>

record browser =
  bid :: nat
  port :: nat
  audioPort :: nat
  host :: string
  inUse :: bool
  lastUsed :: "nat option"
  lastHeartbeat :: "nat option"
  userId :: "string option"
  sessionId :: "string option"
  clientId :: "jsstring option"

text \<open>Values of the maps \<^verbatim>\<open>sessions\<close>, \<^verbatim>\<open>urlTokens\<close>, \<^verbatim>\<open>activeConnections\<close> and of the
  Firebase mirror \<^verbatim>\<open>nebula/browsers/state/<id>\<close>.\<close>

datatype session =
  Session (se_browserId: nat) (se_clientId: jsstring) (se_createdAt: nat) (se_lastActivity: nat)

datatype url_entry =
  UrlEntry (ue_browserId: nat) (ue_cookieToken: token) (ue_createdAt: nat)

datatype conn = Conn (count: nat) (lastDisconnect: "nat option")

datatype mirror_entry =
  MirrorEntry (m_inUse: bool) (m_clientId: "jsstring option") (m_sessionId: "string option")
    (m_lastUsed: "nat option") (m_lastHeartbeat: "nat option")

text \<open>
  The module-level state. \<^verbatim>\<open>sessions\<close> is a JavaScript \<^verbatim>\<open>Map\<close> that is iterated with
  an early \<^verbatim>\<open>break\<close>, so its insertion order matters: it is an association list. The other
  maps are only looked up by key or filtered as a whole. \<open>db\<close> is the Firebase handle
  (\<open>None\<close> when no service account was found) together with what has been written below
  \<^verbatim>\<open>nebula/browsers/state\<close>. \<open>randomBytes\<close> is the stream of values that the coming calls of
  \<^verbatim>\<open>generateSecureToken()\<close> return.
\<close>

record state =
  BROWSERS :: "browser list"
  sessions :: "(string \<times> session) list"
  clientSessions :: "jsstring \<rightharpoonup> nat"
  activeConnections :: "nat \<rightharpoonup> conn"
  browserTokens :: "nat \<rightharpoonup> token"
  tokenToBrowser :: "token \<rightharpoonup> nat"
  urlTokens :: "token \<rightharpoonup> url_entry"
  db :: "(nat \<rightharpoonup> mirror_entry) option"
  randomBytes :: "nat \<Rightarrow> token"

definition SESSION_TIMEOUT_MS :: nat where
  "SESSION_TIMEOUT_MS = 5 * 60 * 1000"

definition WS_PRESENCE_TIMEOUT_MS :: nat where
  "WS_PRESENCE_TIMEOUT_MS = 2 * 60 * 1000"

definition freeBrowser :: "nat \<Rightarrow> nat \<Rightarrow> nat \<Rightarrow> browser" where
  "freeBrowser i p a =
     \<lparr>bid = i, port = p, audioPort = a, host = ''localhost'', inUse = False, lastUsed = None,
      lastHeartbeat = None, userId = None, sessionId = None, clientId = None\<rparr>"

definition BROWSERS_init :: "browser list" where
  "BROWSERS_init =
     [freeBrowser 1 6901 4901, freeBrowser 2 6902 4902, freeBrowser 3 6903 4903,
      freeBrowser 4 6904 4904, freeBrowser 5 6905 4905, freeBrowser 6 6906 4906,
      freeBrowser 7 6907 4907, freeBrowser 8 6908 4908, freeBrowser 9 6909 4909,
      freeBrowser 10 6910 4910]"

definition init_state :: "(nat \<rightharpoonup> mirror_entry) option \<Rightarrow> (nat \<Rightarrow> token) \<Rightarrow> state" where
  "init_state d r =
     \<lparr>BROWSERS = BROWSERS_init, sessions = [], clientSessions = Map.empty,
      activeConnections = Map.empty, browserTokens = Map.empty, tokenToBrowser = Map.empty,
      urlTokens = Map.empty, db = d, randomBytes = r\<rparr>"

subsection \<open>JavaScript helpers\<close>

text \<open>Truthiness of a string-or-undefined value: \<^verbatim>\<open>if (x)\<close>.\<close>

definition truthy :: "'a list option \<Rightarrow> bool" where
  "truthy x = (case x of None \<Rightarrow> False | Some v \<Rightarrow> v \<noteq> [])"

definition startsWith :: "'a list \<Rightarrow> 'a list \<Rightarrow> bool" where
  "startsWith s p = (take (length p) s = p)"

text \<open>\<^verbatim>\<open>Map.prototype.set\<close>: an existing key keeps its position, a new key goes last.\<close>

fun map_set :: "'k \<Rightarrow> 'v \<Rightarrow> ('k \<times> 'v) list \<Rightarrow> ('k \<times> 'v) list" where
  "map_set k v [] = [(k, v)]"
| "map_set k v ((k', v') # xs) = (if k' = k then (k, v) # xs else (k', v') # map_set k v xs)"

text \<open>\<^verbatim>\<open>BROWSERS.find(b => b.id === id)\<close> and \<^verbatim>\<open>BROWSERS.find(b => !b.inUse)\<close>.\<close>

definition getBrowserById :: "state \<Rightarrow> nat \<Rightarrow> browser option" where
  "getBrowserById s i = find (\<lambda>b. bid b = i) (BROWSERS s)"

definition findAvailableBrowser :: "state \<Rightarrow> browser option" where
  "findAvailableBrowser s = find (\<lambda>b. \<not> inUse b) (BROWSERS s)"

text \<open>
  The pool holds objects, and the handlers assign to the fields of the object that
  \<^verbatim>\<open>find\<close> returned: the first element with that id is the one that changes.
\<close>

fun upd_first :: "nat \<Rightarrow> (browser \<Rightarrow> browser) \<Rightarrow> browser list \<Rightarrow> browser list" where
  "upd_first i f [] = []"
| "upd_first i f (b # bs) = (if bid b = i then f b # bs else b # upd_first i f bs)"

definition upd_browser :: "nat \<Rightarrow> (browser \<Rightarrow> browser) \<Rightarrow> state \<Rightarrow> state" where
  "upd_browser i f s = s\<lparr>BROWSERS := upd_first i f (BROWSERS s)\<rparr>"

definition generateSecureToken :: "state \<Rightarrow> token \<times> state" where
  "generateSecureToken s = (randomBytes s 0, s\<lparr>randomBytes := (\<lambda>n. randomBytes s (Suc n))\<rparr>)"

text \<open>
  \<^verbatim>\<open>syncBrowserToFirebase(browser)\<close>: nothing without a database, otherwise the slot's
  entry is overwritten with the fields the object has at the time of the call. (The summary
  document written next to it is not part of the state that the handlers read.)
\<close>

definition or_null :: "'a list option \<Rightarrow> 'a list option" where
  "or_null x = (if truthy x then x else None)"

definition num_or_null :: "nat option \<Rightarrow> nat option" where
  "num_or_null x = (if x = Some 0 then None else x)"

definition syncBrowserToFirebase :: "browser \<Rightarrow> state \<Rightarrow> state" where
  "syncBrowserToFirebase b s =
     (case db s of
        None \<Rightarrow> s
      | Some m \<Rightarrow>
          s\<lparr>db := Some (m(bid b \<mapsto>
                 MirrorEntry (inUse b) (or_null (clientId b)) (or_null (sessionId b))
                   (num_or_null (lastUsed b)) (num_or_null (lastHeartbeat b))))\<rparr>)"

subsection \<open>Session tokens\<close>

definition createSessionTokens :: "nat \<Rightarrow> nat \<Rightarrow> state \<Rightarrow> (token \<times> token) \<times> state" where
  "createSessionTokens browserId now s =
     (let s1 = (case browserTokens s browserId of
                  None \<Rightarrow> s
                | Some old \<Rightarrow>
                    if old \<noteq> [] then s\<lparr>tokenToBrowser := (tokenToBrowser s)(old := None)\<rparr> else s);
          (cookieToken, s2) = generateSecureToken s1;
          (urlToken, s3) = generateSecureToken s2;
          s4 = s3\<lparr>browserTokens := (browserTokens s3)(browserId \<mapsto> cookieToken)\<rparr>;
          s5 = s4\<lparr>tokenToBrowser := (tokenToBrowser s4)(cookieToken \<mapsto> browserId)\<rparr>;
          s6 = s5\<lparr>urlTokens := (urlTokens s5)(urlToken \<mapsto> UrlEntry browserId cookieToken now)\<rparr>
      in ((cookieToken, urlToken), s6))"

definition createUrlToken :: "nat \<Rightarrow> nat \<Rightarrow> state \<Rightarrow> token option \<times> state" where
  "createUrlToken browserId now s =
     (case browserTokens s browserId of
        None \<Rightarrow> (None, s)
      | Some cookieToken \<Rightarrow>
          if cookieToken = [] then (None, s)
          else
            (let (urlToken, s1) = generateSecureToken s
             in (Some urlToken,
                 s1\<lparr>urlTokens := (urlTokens s1)(urlToken \<mapsto> UrlEntry browserId cookieToken now)\<rparr>)))"

text \<open>
  The result of \<^verbatim>\<open>parseCookies(req)\<close>, as far as the handlers read it: the cookies
  \<^verbatim>\<open>nebula_session\<close> and \<^verbatim>\<open>nebula_browser\<close> (\<open>None\<close> when absent).
\<close>

record cookies =
  nebula_session :: "string option"
  nebula_browser :: "string option"

text \<open>\<^verbatim>\<open>validateBrowserAccess(req, browserId)\<close> reads nothing of \<^verbatim>\<open>req\<close> but its cookies.\<close>

definition validateBrowserAccess :: "state \<Rightarrow> cookies \<Rightarrow> nat \<Rightarrow> bool" where
  "validateBrowserAccess s c browserId =
     (case nebula_session c of
        None \<Rightarrow> False
      | Some t \<Rightarrow> if t = [] then False else tokenToBrowser s t = Some browserId)"

definition cleanupUrlTokens :: "nat \<Rightarrow> state \<Rightarrow> state" where
  "cleanupUrlTokens now s =
     s\<lparr>urlTokens := (\<lambda>t. case urlTokens s t of
                           None \<Rightarrow> None
                         | Some e \<Rightarrow>
                             if int now - int (ue_createdAt e) > 5 * 60 * 1000 then None
                             else Some e)\<rparr>"

subsection \<open>Release\<close>

text \<open>The loop over \<^verbatim>\<open>sessions\<close> in \<^verbatim>\<open>doReleaseBrowser\<close>: delete the first record of the
  slot, then \<^verbatim>\<open>break\<close>.\<close>

fun delete_first_session :: "nat \<Rightarrow> (string \<times> session) list \<Rightarrow> (string \<times> session) list" where
  "delete_first_session i [] = []"
| "delete_first_session i ((k, v) # xs) =
     (if se_browserId v = i then xs else (k, v) # delete_first_session i xs)"

definition doReleaseBrowser :: "browser \<Rightarrow> state \<Rightarrow> state" where
  "doReleaseBrowser b s =
     (if \<not> inUse b then s
      else
        (let s1 = s\<lparr>sessions := delete_first_session (bid b) (sessions s)\<rparr>;
             s2 = (if truthy (clientId b)
                   then s1\<lparr>clientSessions := (clientSessions s1)(the (clientId b) := None)\<rparr>
                   else s1);
             s3 = (if truthy (browserTokens s2 (bid b))
                   then s2\<lparr>tokenToBrowser := (tokenToBrowser s2)(the (browserTokens s2 (bid b)) := None),
                           browserTokens := (browserTokens s2)(bid b := None)\<rparr>
                   else s2);
             s4 = s3\<lparr>urlTokens := (\<lambda>t. case urlTokens s3 t of
                                          None \<Rightarrow> None
                                        | Some e \<Rightarrow> if ue_browserId e = bid b then None else Some e)\<rparr>;
             b' = b\<lparr>inUse := False, userId := None, sessionId := None, clientId := None,
                    lastHeartbeat := None\<rparr>;
             s5 = upd_browser (bid b) (\<lambda>_. b') s4;
             s6 = s5\<lparr>activeConnections := (activeConnections s5)(bid b := None)\<rparr>
         in syncBrowserToFirebase b' s6))"

subsection \<open>Assignment\<close>

definition findBrowserByClientId :: "jsstring \<Rightarrow> state \<Rightarrow> browser option \<times> state" where
  "findBrowserByClientId cid s =
     (if cid = [] then (None, s)
      else
        (case clientSessions s cid of
           None \<Rightarrow> (None, s)
         | Some browserId \<Rightarrow>
             if browserId = 0 then (None, s)
             else
               (case getBrowserById s browserId of
                  Some b \<Rightarrow>
                    if inUse b \<and> clientId b = Some cid then (Some b, s)
                    else (None, s\<lparr>clientSessions := (clientSessions s)(cid := None)\<rparr>)
                | None \<Rightarrow> (None, s\<lparr>clientSessions := (clientSessions s)(cid := None)\<rparr>))))"

text \<open>The object \<^verbatim>\<open>{ browser, existing, cookieToken, urlToken }\<close> returned by
  \<^verbatim>\<open>assignBrowser\<close>; \<^verbatim>\<open>null\<close> is \<open>None\<close>.\<close>

datatype assign_result =
  AssignResult (ar_browser: browser) (ar_existing: bool) (ar_cookieToken: token)
    (ar_urlToken: "token option")

text \<open>
  \<^verbatim>\<open>assignBrowser(sessionId, clientId)\<close>; \<open>now\<close> is the value of \<^verbatim>\<open>Date.now()\<close> during the
  call.
\<close>

definition assignExisting :: "string \<Rightarrow> jsstring \<Rightarrow> nat \<Rightarrow> browser \<Rightarrow> state \<Rightarrow> assign_result option \<times> state" where
  "assignExisting sid cid now existing s =
     (let existing' = existing\<lparr>lastHeartbeat := Some now\<rparr>;
          s1 = upd_browser (bid existing) (\<lambda>_. existing') s;
          s2 = s1\<lparr>sessions := map_set sid (Session (bid existing) cid now now) (sessions s1)\<rparr>;
          s3 = syncBrowserToFirebase existing' s2;
          (cookieToken, s4) =
             (if truthy (browserTokens s3 (bid existing))
              then (the (browserTokens s3 (bid existing)), s3)
              else
                (let (c, t1) = generateSecureToken s3;
                     t2 = t1\<lparr>browserTokens := (browserTokens t1)(bid existing \<mapsto> c)\<rparr>
                 in (c, t2\<lparr>tokenToBrowser := (tokenToBrowser t2)(c \<mapsto> bid existing)\<rparr>)));
          (urlToken, s5) = createUrlToken (bid existing) now s4
      in (Some (AssignResult existing' True cookieToken urlToken), s5))"

definition assignNew :: "string \<Rightarrow> jsstring \<Rightarrow> nat \<Rightarrow> browser \<Rightarrow> state \<Rightarrow> assign_result option \<times> state" where
  "assignNew sid cid now b s =
     (let b' = b\<lparr>inUse := True, lastUsed := Some now, lastHeartbeat := Some now,
                 userId := Some sid, sessionId := Some sid, clientId := Some cid\<rparr>;
          s1 = upd_browser (bid b) (\<lambda>_. b') s;
          s2 = s1\<lparr>sessions := map_set sid (Session (bid b) cid now now) (sessions s1)\<rparr>;
          s3 = (if cid \<noteq> [] then s2\<lparr>clientSessions := (clientSessions s2)(cid \<mapsto> bid b)\<rparr> else s2);
          s4 = s3\<lparr>activeConnections := (activeConnections s3)(bid b \<mapsto> Conn 0 None)\<rparr>;
          ((cookieToken, urlToken), s5) = createSessionTokens (bid b) now s4
      in (Some (AssignResult b' False cookieToken (Some urlToken)), syncBrowserToFirebase b' s5))"

definition assignBrowser :: "string \<Rightarrow> jsstring \<Rightarrow> nat \<Rightarrow> state \<Rightarrow> assign_result option \<times> state" where
  "assignBrowser sid cid now s =
     (case findBrowserByClientId cid s of
        (Some existing, s0) \<Rightarrow> assignExisting sid cid now existing s0
      | (None, s0) \<Rightarrow>
          (case findAvailableBrowser s0 of
             None \<Rightarrow> (None, s0)
           | Some b \<Rightarrow> assignNew sid cid now b s0))"

subsection \<open>Browser route: access control of the HTTP handler\<close>

text \<open>
  What the handler decides for a request on \<^verbatim>\<open>/browser/<id>/...\<close>: 204 for a CORS
  preflight, which is answered before the path is looked at, 404 when the pool has no such
  slot, 403 with the static page, or the request goes on to the container with the
  \<^verbatim>\<open>Set-Cookie\<close> header the handler has set. The two cookies are always written with
  \<^verbatim>\<open>Path=/; HttpOnly; SameSite=Lax; Max-Age=86400\<close>.
\<close>

text \<open>
  A request on \<^verbatim>\<open>/browser/<id><rest>\<close>, after \<^verbatim>\<open>parseBrowserPath\<close>, \<^verbatim>\<open>parseCookies\<close> and
  \<^verbatim>\<open>url.searchParams\<close> have been applied to it: the method, the slot id and the rest of the
  path, the cookies, and the first \<^verbatim>\<open>token\<close> query parameter (\<open>None\<close> when
  \<^verbatim>\<open>searchParams.has('token')\<close> is false).
\<close>

record request =
  reqMethod :: string
  routeBrowserId :: nat
  remainingPath :: string
  reqCookies :: cookies
  tokenParam :: "string option"

datatype set_cookie = Nebula_session token | Nebula_browser nat

datatype http_outcome = Preflight204 | NotFound404 | AccessDenied403 | Proxied "set_cookie list"

definition browserRoute :: "request \<Rightarrow> state \<Rightarrow> http_outcome \<times> state" where
  "browserRoute req s =
     (if reqMethod req = ''OPTIONS'' then (Preflight204, s) else
      case getBrowserById s (routeBrowserId req) of
        None \<Rightarrow> (NotFound404, s)
      | Some b \<Rightarrow>
          (let hasAccess = validateBrowserAccess s (reqCookies req) (bid b);
               (hasAccess', hdr, s') =
                  (if \<not> hasAccess \<and> tokenParam req \<noteq> None then
                     (case urlTokens s (the (tokenParam req)) of
                        Some urlEntry \<Rightarrow>
                          if ue_browserId urlEntry = bid b
                          then (True,
                                [Nebula_session (ue_cookieToken urlEntry), Nebula_browser (bid b)],
                                s\<lparr>urlTokens := (urlTokens s)(the (tokenParam req) := None)\<rparr>)
                          else (hasAccess, [], s)
                      | None \<Rightarrow> (hasAccess, [], s))
                   else (hasAccess, [], s))
           in if \<not> hasAccess' then (AccessDenied403, s')
              else (Proxied (if hdr = [] then [Nebula_browser (bid b)] else hdr), s')))"

subsection \<open>WebSocket upgrade: routing and access control\<close>

text \<open>
  \<^verbatim>\<open>parseInt(str, 10)\<close> on a cookie value: leading white space, an optional sign, then the
  longest run of decimal digits; \<open>None\<close> is \<^verbatim>\<open>NaN\<close> (also for an absent cookie). A header
  value holds characters up to \<^verbatim>\<open>U+00FF\<close> only, of which JavaScript takes tab, line feed,
  vertical tab, form feed, carriage return, space and the no-break space \<^verbatim>\<open>U+00A0\<close> as white
  space. The result is the exact integer; JavaScript rounds it to a double beyond \<^verbatim>\<open>2**53\<close>,
  which the only reader, the comparison with 1 and the size of the pool in
  \<^verbatim>\<open>getBrowserFromCookie\<close>, cannot tell apart.
\<close>

definition is_digit :: "char \<Rightarrow> bool" where
  "is_digit c = (48 \<le> (of_char c :: nat) \<and> (of_char c :: nat) \<le> 57)"

definition digits_val :: "string \<Rightarrow> nat" where
  "digits_val ds = foldl (\<lambda>n c. 10 * n + (of_char c - 48)) 0 ds"

definition parseInt :: "string option \<Rightarrow> int option" where
  "parseInt x =
     (case x of
        None \<Rightarrow> None
      | Some str \<Rightarrow>
          (let t = dropWhile (\<lambda>c. c \<in> set [CHR '' '', CHR 0x09, CHR 0x0A, CHR 0x0B, CHR 0x0C, CHR 0x0D,
                                            CHR 0xA0]) str;
               neg = (t \<noteq> [] \<and> hd t = CHR ''-'');
               u = (if t \<noteq> [] \<and> (hd t = CHR ''-'' \<or> hd t = CHR ''+'') then tl t else t);
               ds = takeWhile is_digit u
           in if ds = [] then None
              else Some (if neg then - int (digits_val ds) else int (digits_val ds))))"

definition getBrowserFromCookie :: "state \<Rightarrow> cookies \<Rightarrow> browser option" where
  "getBrowserFromCookie s c =
     (case parseInt (nebula_browser c) of
        None \<Rightarrow> None
      | Some browserId \<Rightarrow>
          if browserId \<noteq> 0 \<and> browserId \<ge> 1 \<and> browserId \<le> int (length (BROWSERS s))
          then getBrowserById s (nat browserId) else None)"

text \<open>
  An upgrade request: \<open>wsRoute\<close> is the result of \<^verbatim>\<open>parseBrowserPath(url.pathname)\<close> (slot id
  and remaining path, \<open>None\<close> for \<^verbatim>\<open>null\<close>), \<open>wsSearch\<close> is \<^verbatim>\<open>url.search\<close>, \<open>wsKey\<close> the
  \<^verbatim>\<open>sec-websocket-key\<close> header.
\<close>

record upgrade_request =
  wsRoute :: "(nat \<times> string) option"
  wsPathname :: string
  wsSearch :: string
  wsCookies :: cookies
  wsKey :: "string option"

text \<open>
  What the upgrade handler does with the socket: 400 when no slot is found, 403 when access
  is denied, the audio side channel (400 without a key, else the handshake is completed and
  ffmpeg is started for the slot's container), or the TLS tunnel to the slot's port with the
  target path.
\<close>

datatype ws_outcome =
    WsBadRequest400
  | WsForbidden403
  | WsAudioMissingKey400
  | WsAudio nat
  | WsTunnel string nat string

definition isAudioWs :: "upgrade_request \<Rightarrow> bool" where
  "isAudioWs req =
     (case wsRoute req of
        None \<Rightarrow> False
      | Some (_, rest) \<Rightarrow> rest = ''/audio'' \<or> startsWith rest ''/kasmaudio'')"

definition upgrade :: "upgrade_request \<Rightarrow> state \<Rightarrow> ws_outcome" where
  "upgrade req s =
     (let (browser, targetPath) =
            (case wsRoute req of
               Some (browserId, rest) \<Rightarrow> (getBrowserById s browserId, rest @ wsSearch req)
             | None \<Rightarrow>
                 if wsPathname req = ''/websockify'' \<or> startsWith (wsPathname req) ''/api/''
                 then (getBrowserFromCookie s (wsCookies req), wsPathname req @ wsSearch req)
                 else (None, wsPathname req @ wsSearch req))
      in case browser of
           None \<Rightarrow> WsBadRequest400
         | Some b \<Rightarrow>
             if \<not> isAudioWs req \<and> \<not> validateBrowserAccess s (wsCookies req) (bid b)
             then WsForbidden403
             else if isAudioWs req
             then (if truthy (wsKey req) then WsAudio (bid b) else WsAudioMissingKey400)
             else WsTunnel (host b) (port b) targetPath)"

subsection \<open>Liveness: heartbeats, WebSocket presence, the reaper\<close>

text \<open>\<^verbatim>\<open>a || b\<close> on timestamps: \<^verbatim>\<open>null\<close> and \<^verbatim>\<open>0\<close> are falsy.\<close>

definition num_or :: "nat option \<Rightarrow> nat \<Rightarrow> nat" where
  "num_or a b = (case a of None \<Rightarrow> b | Some v \<Rightarrow> if v \<noteq> 0 then v else b)"

fun touch_first_session :: "nat \<Rightarrow> nat \<Rightarrow> (string \<times> session) list \<Rightarrow> (string \<times> session) list" where
  "touch_first_session i now [] = []"
| "touch_first_session i now ((k, v) # xs) =
     (if se_browserId v = i
      then (k, Session (se_browserId v) (se_clientId v) (se_createdAt v) now) # xs
      else (k, v) # touch_first_session i now xs)"

text \<open>
  \<^verbatim>\<open>POST /api/heartbeat\<close>. \<open>browserId = Some i\<close>: \<^verbatim>\<open>parsed.browserId\<close> is truthy and
  \<^verbatim>\<open>parseInt\<close> of it is \<open>i\<close>; \<open>sessionId = Some k\<close>: \<^verbatim>\<open>parsed.sessionId\<close> is the truthy
  string \<open>k\<close>; \<open>sample\<close> is the outcome of \<^verbatim>\<open>Math.random() < 0.2\<close>. The result is
  \<^verbatim>\<open>alive\<close>.
\<close>

definition heartbeat :: "nat option \<Rightarrow> string option \<Rightarrow> nat \<Rightarrow> bool \<Rightarrow> state \<Rightarrow> bool \<times> state" where
  "heartbeat browserId sessId now sample s =
     (case browserId of
        Some i \<Rightarrow>
          (case getBrowserById s i of
             None \<Rightarrow> (False, s)
           | Some b \<Rightarrow>
               if inUse b then
                 (let b' = b\<lparr>lastHeartbeat := Some now\<rparr>;
                      s1 = upd_browser (bid b) (\<lambda>_. b') s;
                      s2 = s1\<lparr>sessions := touch_first_session (bid b) now (sessions s1)\<rparr>
                  in (True, if sample then syncBrowserToFirebase b' s2 else s2))
               else (False, s))
      | None \<Rightarrow>
          (case sessId of
             None \<Rightarrow> (False, s)
           | Some k \<Rightarrow>
               (case map_of (sessions s) k of
                  None \<Rightarrow> (False, s)
                | Some v \<Rightarrow>
                    (let s1 = s\<lparr>sessions := map_set k
                                 (Session (se_browserId v) (se_clientId v) (se_createdAt v) now)
                                 (sessions s)\<rparr>
                     in case getBrowserById s1 (se_browserId v) of
                          None \<Rightarrow> (False, s1)
                        | Some b \<Rightarrow>
                            (True, upd_browser (bid b) (\<lambda>_. b\<lparr>lastHeartbeat := Some now\<rparr>) s1)))))"

definition trackWsConnect :: "nat \<Rightarrow> nat \<Rightarrow> state \<Rightarrow> state" where
  "trackWsConnect browserId now s =
     (let c = (case activeConnections s browserId of None \<Rightarrow> Conn 0 None | Some c \<Rightarrow> c);
          s1 = s\<lparr>activeConnections := (activeConnections s)(browserId \<mapsto> Conn (count c + 1) None)\<rparr>
      in case getBrowserById s1 browserId of
           None \<Rightarrow> s1
         | Some b \<Rightarrow>
             if inUse b then upd_browser (bid b) (\<lambda>_. b\<lparr>lastHeartbeat := Some now\<rparr>) s1 else s1)"

definition trackWsDisconnect :: "nat \<Rightarrow> nat \<Rightarrow> state \<Rightarrow> state" where
  "trackWsDisconnect browserId now s =
     (case activeConnections s browserId of
        None \<Rightarrow> s
      | Some c \<Rightarrow>
          (let n = count c - 1
           in s\<lparr>activeConnections := (activeConnections s)(browserId \<mapsto>
                   Conn n (if n = 0 then Some now else lastDisconnect c))\<rparr>))"

text \<open>One iteration of the loop of \<^verbatim>\<open>cleanupSessions\<close>, on the pool object \<open>b\<close>.\<close>

definition reap :: "nat \<Rightarrow> browser \<Rightarrow> state \<Rightarrow> state" where
  "reap now b s =
     (if \<not> inUse b then s
      else
        (let lastHb = num_or (lastHeartbeat b) (num_or (lastUsed b) 0)
         in if lastHb \<noteq> 0 \<and> int now - int lastHb > int SESSION_TIMEOUT_MS then doReleaseBrowser b s
            else
              (let conn = activeConnections s (bid b)
               in if conn = None \<or> count (the conn) \<le> 0 then
                    (let disconnectTime =
                           num_or (case conn of None \<Rightarrow> None | Some c \<Rightarrow> lastDisconnect c)
                             (num_or (lastUsed b) 0);
                         assignAge = int now - int (num_or (lastUsed b) 0)
                     in if assignAge > 60000 \<and> disconnectTime \<noteq> 0
                           \<and> int now - int disconnectTime > int WS_PRESENCE_TIMEOUT_MS
                        then doReleaseBrowser b s else s)
                  else s)))"

definition cleanupSessions :: "nat \<Rightarrow> state \<Rightarrow> state" where
  "cleanupSessions now s =
     fold (\<lambda>k s'. reap now (BROWSERS s' ! k) s') [0..<length (BROWSERS s)] s"

subsection \<open>Control plane: check-session and release\<close>

datatype check_outcome =
    CheckMissingClientId400
  | CheckHasSession nat "token option" int
  | CheckNoSession

text \<open>\<^verbatim>\<open>GET /api/check-session\<close>; \<open>cid\<close> is \<^verbatim>\<open>url.searchParams.get('clientId')\<close>. The
  session age is \<^verbatim>\<open>Math.round(age / 1000)\<close>.\<close>

definition checkSession :: "jsstring option \<Rightarrow> nat \<Rightarrow> state \<Rightarrow> check_outcome \<times> state" where
  "checkSession cid now s =
     (if \<not> truthy cid then (CheckMissingClientId400, s)
      else
        (case findBrowserByClientId (the cid) s of
           (None, s0) \<Rightarrow> (CheckNoSession, s0)
         | (Some b, s0) \<Rightarrow>
             (let lastHb = num_or (lastHeartbeat b) (num_or (lastUsed b) 0);
                  age = int now - int lastHb
              in if age < int SESSION_TIMEOUT_MS then
                   (let s1 = (if truthy (browserTokens s0 (bid b)) then s0
                              else
                                (let (c, t1) = generateSecureToken s0;
                                     t2 = t1\<lparr>browserTokens := (browserTokens t1)(bid b \<mapsto> c)\<rparr>
                                 in t2\<lparr>tokenToBrowser := (tokenToBrowser t2)(c \<mapsto> bid b)\<rparr>));
                        (urlToken, s2) = createUrlToken (bid b) now s1
                    in (CheckHasSession (bid b) urlToken ((age + 500) div 1000), s2))
                 else (CheckNoSession, doReleaseBrowser b s0))))"

text \<open>
  \<^verbatim>\<open>POST /api/release\<close>. \<open>cid = Some c\<close>: \<^verbatim>\<open>parsed.clientId\<close> is the truthy string \<open>c\<close>;
  \<open>browserId = Some i\<close>: \<^verbatim>\<open>parsed.browserId\<close> is truthy and \<^verbatim>\<open>parseInt\<close> of it is \<open>i\<close>.
  The result is \<^verbatim>\<open>released\<close>.
\<close>

definition release :: "jsstring option \<Rightarrow> nat option \<Rightarrow> state \<Rightarrow> bool \<times> state" where
  "release cid browserId s =
     (if truthy cid then
        (case findBrowserByClientId (the cid) s of
           (None, s0) \<Rightarrow> (False, s0)
         | (Some b, s0) \<Rightarrow> (True, doReleaseBrowser b s0))
      else
        (case browserId of
           None \<Rightarrow> (False, s)
         | Some i \<Rightarrow>
             (case getBrowserById s i of
                None \<Rightarrow> (False, s)
              | Some b \<Rightarrow> if inUse b then (True, doReleaseBrowser b s) else (False, s))))"

subsection \<open>Runs of the server\<close>

text \<open>
  The handlers and timers are synchronous functions on one thread, so a run of the server
  is a sequence of their executions. Each event carries what the environment supplies to
  it: the request, the clock, and for \<^verbatim>\<open>request-browser\<close> the fresh session id and the
  client id the handler has settled on.
\<close>

datatype event =
    Ev_request_browser string jsstring nat
  | Ev_check_session "jsstring option" nat
  | Ev_heartbeat "nat option" "string option" nat bool
  | Ev_release "jsstring option" "nat option"
  | Ev_browser_route request
  | Ev_ws_connect nat nat
  | Ev_ws_disconnect nat nat
  | Ev_cleanup_sessions nat
  | Ev_cleanup_url_tokens nat

fun step :: "event \<Rightarrow> state \<Rightarrow> state" where
  "step (Ev_request_browser sid cid now) s = snd (assignBrowser sid cid now s)"
| "step (Ev_check_session cid now) s = snd (checkSession cid now s)"
| "step (Ev_heartbeat i k now sample) s = snd (heartbeat i k now sample s)"
| "step (Ev_release cid i) s = snd (release cid i s)"
| "step (Ev_browser_route req) s = snd (browserRoute req s)"
| "step (Ev_ws_connect i now) s = trackWsConnect i now s"
| "step (Ev_ws_disconnect i now) s = trackWsDisconnect i now s"
| "step (Ev_cleanup_sessions now) s = cleanupSessions now s"
| "step (Ev_cleanup_url_tokens now) s = cleanupUrlTokens now s"

definition run :: "event list \<Rightarrow> state \<Rightarrow> state" where
  "run evs s = fold step evs s"

subsection \<open>Notions used by the properties\<close>

text \<open>A token is spent in a state when it is not in \<^verbatim>\<open>urlTokens\<close> and the generator will not
  return it again.\<close>

definition spent :: "token \<Rightarrow> state \<Rightarrow> bool" where
  "spent t s \<longleftrightarrow> urlTokens s t = None \<and> (\<forall>n. randomBytes s n \<noteq> t)"

definition slot_ids :: "state \<Rightarrow> nat list" where
  "slot_ids s = map bid (BROWSERS s)"

text \<open>A generator for examples, and the state after one client has been given slot 1.\<close>

definition demo_random :: "nat \<Rightarrow> token" where
  "demo_random n = replicate (Suc n) CHR ''a''"

definition demo_state :: state where
  "demo_state =
     snd (assignBrowser ''sess_1'' (js ''client-0001'') 1000 (init_state None demo_random))"

definition no_cookies :: cookies where
  "no_cookies = \<lparr>nebula_session = None, nebula_browser = None\<rparr>"

definition token_request :: "nat \<Rightarrow> token \<Rightarrow> request" where
  "token_request i t =
     \<lparr>reqMethod = ''GET'', routeBrowserId = i, remainingPath = ''/'', reqCookies = no_cookies,
      tokenParam = Some t\<rparr>"

definition audio_upgrade :: upgrade_request where
  "audio_upgrade =
     \<lparr>wsRoute = Some (1, ''/audio''), wsPathname = ''/browser/1/audio'', wsSearch = [],
      wsCookies = no_cookies, wsKey = Some ''dGhlIHNhbXBsZSBub25jZQ==''\<rparr>"

definition vnc_upgrade :: "string option \<Rightarrow> upgrade_request" where
  "vnc_upgrade c =
     \<lparr>wsRoute = Some (1, ''/websockify''), wsPathname = ''/browser/1/websockify'', wsSearch = [],
      wsCookies = \<lparr>nebula_session = c, nebula_browser = None\<rparr>,
      wsKey = Some ''dGhlIHNhbXBsZSBub25jZQ==''\<rparr>"



definition release_trace :: "event list" where
  "release_trace =
     [Ev_request_browser ''sess_1'' (js ''client-0001'') 1000,
      Ev_request_browser ''sess_2'' (js ''client-0001'') 2000,
      Ev_release (Some (js ''client-0001'')) None,
      Ev_request_browser ''sess_3'' (js ''client-0002'') 3000,
      Ev_release (Some (js ''client-0002'')) None]"

type_synonym byte = "8 word"

section \<open>Node buffers: UTF-8 and base64\<close>

definition is_high :: "16 word \<Rightarrow> bool" where
  "is_high c = (0xD800 \<le> unat c \<and> unat c < 0xDC00)"

definition is_low :: "16 word \<Rightarrow> bool" where
  "is_low c = (0xDC00 \<le> unat c \<and> unat c < 0xE000)"

definition replacement :: "byte list" where
  "replacement = [0xEF, 0xBF, 0xBD]"

text \<open>The UTF-8 bytes of a code point.\<close>

definition utf8_bytes :: "nat \<Rightarrow> byte list" where
  "utf8_bytes n =
     (if n < 0x80 then [of_nat n]
      else if n < 0x800 then [of_nat (0xC0 + n div 64), of_nat (0x80 + n mod 64)]
      else if n < 0x10000 then
        [of_nat (0xE0 + n div 4096), of_nat (0x80 + n div 64 mod 64), of_nat (0x80 + n mod 64)]
      else
        [of_nat (0xF0 + n div 262144), of_nat (0x80 + n div 4096 mod 64),
         of_nat (0x80 + n div 64 mod 64), of_nat (0x80 + n mod 64)])"

definition pair_code_point :: "16 word \<Rightarrow> 16 word \<Rightarrow> nat" where
  "pair_code_point h l = 0x10000 + (unat h - 0xD800) * 1024 + (unat l - 0xDC00)"

text \<open>\<^verbatim>\<open>Buffer.from(str)\<close>: a surrogate pair is one code point, a surrogate on its own
  becomes U+FFFD.\<close>

fun utf8_encode :: "jsstring \<Rightarrow> byte list" where
  "utf8_encode [] = []"
| "utf8_encode [c] = (if is_high c \<or> is_low c then replacement else utf8_bytes (unat c))"
| "utf8_encode (c # d # cs) =
     (if is_high c \<and> is_low d then utf8_bytes (pair_code_point c d) @ utf8_encode cs
      else if is_high c \<or> is_low c then replacement @ utf8_encode (d # cs)
      else utf8_bytes (unat c) @ utf8_encode (d # cs))"

definition in_range :: "nat \<Rightarrow> nat \<Rightarrow> byte \<Rightarrow> bool" where
  "in_range lo hi b = (lo \<le> unat b \<and> unat b \<le> hi)"

text \<open>The code units of a code point.\<close>

definition code_units :: "nat \<Rightarrow> jsstring" where
  "code_units n =
     (if n < 0x10000 then [of_nat n]
      else [of_nat (0xD800 + (n - 0x10000) div 1024), of_nat (0xDC00 + (n - 0x10000) mod 1024)])"

text \<open>
  \<^verbatim>\<open>buf.toString('utf-8')\<close>: the decoder of the Encoding Standard. A lead byte fixes the
  number of continuation bytes and the range of the first of them; a byte that does not fit
  ends the sequence, U+FFFD is emitted for what was read, and the byte is read again as the
  start of the next sequence.
\<close>

fun utf8_decode :: "byte list \<Rightarrow> jsstring" where
  "utf8_decode [] = []"
| "utf8_decode (b # bs) =
     (if unat b < 0x80 then of_nat (unat b) # utf8_decode bs
      else if in_range 0xC2 0xDF b then
        (case bs of
           [] \<Rightarrow> [0xFFFD]
         | b1 # r1 \<Rightarrow>
             if in_range 0x80 0xBF b1
             then code_units ((unat b - 0xC0) * 64 + (unat b1 - 0x80)) @ utf8_decode r1
             else 0xFFFD # utf8_decode bs)
      else if in_range 0xE0 0xEF b then
        (case bs of
           [] \<Rightarrow> [0xFFFD]
         | b1 # r1 \<Rightarrow>
             if in_range (if unat b = 0xE0 then 0xA0 else 0x80)
                  (if unat b = 0xED then 0x9F else 0xBF) b1
             then
               (case r1 of
                  [] \<Rightarrow> [0xFFFD]
                | b2 # r2 \<Rightarrow>
                    if in_range 0x80 0xBF b2
                    then code_units ((unat b - 0xE0) * 4096 + (unat b1 - 0x80) * 64
                           + (unat b2 - 0x80)) @ utf8_decode r2
                    else 0xFFFD # utf8_decode r1)
             else 0xFFFD # utf8_decode bs)
      else if in_range 0xF0 0xF4 b then
        (case bs of
           [] \<Rightarrow> [0xFFFD]
         | b1 # r1 \<Rightarrow>
             if in_range (if unat b = 0xF0 then 0x90 else 0x80)
                  (if unat b = 0xF4 then 0x8F else 0xBF) b1
             then
               (case r1 of
                  [] \<Rightarrow> [0xFFFD]
                | b2 # r2 \<Rightarrow>
                    if in_range 0x80 0xBF b2
                    then
                      (case r2 of
                         [] \<Rightarrow> [0xFFFD]
                       | b3 # r3 \<Rightarrow>
                           if in_range 0x80 0xBF b3
                           then code_units ((unat b - 0xF0) * 262144 + (unat b1 - 0x80) * 4096
                                  + (unat b2 - 0x80) * 64 + (unat b3 - 0x80)) @ utf8_decode r3
                           else 0xFFFD # utf8_decode r2)
                    else 0xFFFD # utf8_decode r1)
             else 0xFFFD # utf8_decode bs)
      else 0xFFFD # utf8_decode bs)"


text \<open>
  Base64. \<open>b64_char i\<close> is the character of index \<open>i\<close> in
  \<^verbatim>\<open>ABCDEFGHIJKLMNOPQRSTUVWXYZabcdefghijklmnopqrstuvwxyz0123456789+/\<close>.
\<close>

definition b64_char :: "nat \<Rightarrow> 16 word" where
  "b64_char i =
     of_nat (if i < 26 then 65 + i else if i < 52 then 71 + i else if i < 62 then i - 4
             else if i = 62 then 43 else 47)"

text \<open>\<^verbatim>\<open>buf.toString('base64')\<close>: three bytes give four characters, the rest is padded
  with \<^verbatim>\<open>=\<close> (code 61).\<close>

fun b64_encode :: "byte list \<Rightarrow> jsstring" where
  "b64_encode [] = []"
| "b64_encode [a] = [b64_char (unat a div 4), b64_char (unat a mod 4 * 16), 61, 61]"
| "b64_encode [a, b] =
     [b64_char (unat a div 4), b64_char (unat a mod 4 * 16 + unat b div 16),
      b64_char (unat b mod 16 * 4), 61]"
| "b64_encode (a # b # c # bs) =
     [b64_char (unat a div 4), b64_char (unat a mod 4 * 16 + unat b div 16),
      b64_char (unat b mod 16 * 4 + unat c div 64), b64_char (unat c mod 64)] @ b64_encode bs"

text \<open>
  \<^verbatim>\<open>Buffer.from(str, 'base64')\<close>. Node reads each code unit of the string through its low
  byte, accepts the standard and the URL-safe alphabet, skips every other character and
  stops at the first \<^verbatim>\<open>=\<close>; what is left over after the last full group of four gives one
  byte (two characters) or two bytes (three).
\<close>

definition low_byte :: "16 word \<Rightarrow> 16 word" where
  "low_byte c = of_nat (unat c mod 256)"

definition unbase64 :: "16 word \<Rightarrow> nat option" where
  "unbase64 c =
     (let n = unat c
      in if 65 \<le> n \<and> n \<le> 90 then Some (n - 65)
         else if 97 \<le> n \<and> n \<le> 122 then Some (n - 71)
         else if 48 \<le> n \<and> n \<le> 57 then Some (n + 4)
         else if n = 43 \<or> n = 45 then Some 62
         else if n = 47 \<or> n = 95 then Some 63
         else None)"

fun b64_bytes :: "nat list \<Rightarrow> byte list" where
  "b64_bytes (p # q # r # s # rest) =
     [of_nat (p * 4 + q div 16), of_nat (q mod 16 * 16 + r div 4), of_nat (r mod 4 * 64 + s)]
       @ b64_bytes rest"
| "b64_bytes [p, q, r] = [of_nat (p * 4 + q div 16), of_nat (q mod 16 * 16 + r div 4)]"
| "b64_bytes [p, q] = [of_nat (p * 4 + q div 16)]"
| "b64_bytes _ = []"

definition b64_decode :: "jsstring \<Rightarrow> byte list" where
  "b64_decode s =
     b64_bytes (List.map_filter unbase64 (takeWhile (\<lambda>c. c \<noteq> 61) (map low_byte s)))"

section \<open>URL-rewriting proxy: the URL codec\<close>

text \<open>
  The platform's \<^verbatim>\<open>URL\<close> class is not part of the repository. The functions that call
  \<^verbatim>\<open>new URL(x)\<close> take the parser as a parameter: it returns the fields the code reads, or
  \<open>None\<close> when the constructor throws.
\<close>

record url =
  href :: jsstring
  protocol :: jsstring
  hostname :: jsstring
  origin :: jsstring
  pathname :: jsstring
  search :: jsstring

type_synonym url_parser = "jsstring \<Rightarrow> url option"

text \<open>
  \<^verbatim>\<open>decodeURIComponent\<close> (ECMAScript \<^verbatim>\<open>Decode\<close>): a \<^verbatim>\<open>%\<close> must be followed by two hex
  digits; a byte below 0x80 is a character, a lead byte asks for one to three further
  \<^verbatim>\<open>%XX\<close> groups, and the bytes must be the UTF-8 encoding of one code point. \<open>None\<close> is
  the \<^verbatim>\<open>URIError\<close>.
\<close>

definition hex_val :: "16 word \<Rightarrow> nat option" where
  "hex_val c =
     (let n = unat c
      in if 48 \<le> n \<and> n \<le> 57 then Some (n - 48)
         else if 65 \<le> n \<and> n \<le> 70 then Some (n - 55)
         else if 97 \<le> n \<and> n \<le> 102 then Some (n - 87)
         else None)"

fun pct_take :: "nat \<Rightarrow> jsstring \<Rightarrow> (byte list \<times> jsstring) option" where
  "pct_take 0 s = Some ([], s)"
| "pct_take (Suc k) (p # h # l # rest) =
     (if p = 37 then
        (case (hex_val h, hex_val l) of
           (Some x, Some y) \<Rightarrow>
             (case pct_take k rest of
                None \<Rightarrow> None
              | Some (bs, r) \<Rightarrow> Some (of_nat (16 * x + y) # bs, r))
         | _ \<Rightarrow> None)
      else None)"
| "pct_take (Suc k) _ = None"

definition utf8_valid :: "byte list \<Rightarrow> bool" where
  "utf8_valid bs = (utf8_encode (utf8_decode bs) = bs)"

definition lead_length :: "byte \<Rightarrow> nat" where
  "lead_length b =
     (if in_range 0xC0 0xDF b then 2 else if in_range 0xE0 0xEF b then 3
      else if in_range 0xF0 0xF7 b then 4 else 0)"

lemma pct_take_length: "pct_take k s = Some (bs, r) \<Longrightarrow> length r + 3 * k = length s"
proof (induction k s arbitrary: bs r rule: pct_take.induct)
  case (1 s)
  then show ?case by simp
next
  case (2 k p h l rest)
  then show ?case
    by (auto split: if_splits option.splits prod.splits)
qed simp_all

function decodeURIComponent :: "jsstring \<Rightarrow> jsstring option" where
  "decodeURIComponent [] = Some []"
| "decodeURIComponent (c # cs) =
     (if c \<noteq> 37 then map_option ((#) c) (decodeURIComponent cs)
      else
        (case pct_take 1 (c # cs) of
           None \<Rightarrow> None
         | Some (bs, r) \<Rightarrow>
             if unat (hd bs) < 0x80
             then map_option ((#) (of_nat (unat (hd bs)))) (decodeURIComponent r)
             else if lead_length (hd bs) = 0 then None
             else
               (case pct_take (lead_length (hd bs) - 1) r of
                  None \<Rightarrow> None
                | Some (conts, r') \<Rightarrow>
                    if utf8_valid (hd bs # conts)
                    then map_option ((@) (utf8_decode (hd bs # conts))) (decodeURIComponent r')
                    else None)))"
  by pat_completeness auto
termination
proof (relation "measure length", goal_cases)
  case 1 show ?case by simp
next
  case (2 c cs) then show ?case by simp
next
  case (3 c cs x2 bs r)
  then show ?case using pct_take_length[of 1 "c # cs" bs r] by simp
next
  case (4 c cs x2 bs r x2a conts r')
  then show ?case
    using pct_take_length[of 1 "c # cs" bs r]
      pct_take_length[of "lead_length (hd bs) - 1" r conts r'] by simp
qed

text \<open>\<^verbatim>\<open>encodeUrl\<close>: the three \<^verbatim>\<open>replace\<close> calls, in the order of the source.\<close>

definition encodeUrl :: "jsstring \<Rightarrow> jsstring" where
  "encodeUrl u =
     filter (\<lambda>c. c \<noteq> 61)
       (map (\<lambda>c. if c = 47 then 95 else c)
          (map (\<lambda>c. if c = 43 then 45 else c) (b64_encode (utf8_encode u))))"

text \<open>The loop \<^verbatim>\<open>while (base64.length % 4) base64 += '='\<close>.\<close>

definition pad4 :: "jsstring \<Rightarrow> jsstring" where
  "pad4 s = s @ replicate ((4 - length s mod 4) mod 4) 61"

text \<open>
  \<^verbatim>\<open>decodeUrl\<close>. \<^verbatim>\<open>x.split(c)[0]\<close> is the part of \<^verbatim>\<open>x\<close> before the first \<^verbatim>\<open>c\<close>. \<open>None\<close>
  is \<^verbatim>\<open>null\<close>.
\<close>

definition decodeUrl :: "url_parser \<Rightarrow> jsstring \<Rightarrow> jsstring option" where
  "decodeUrl U encoded =
     (let base64Part = takeWhile (\<lambda>c. c \<noteq> 38) (takeWhile (\<lambda>c. c \<noteq> 63) encoded);
          base64 = map (\<lambda>c. if c = 95 then 47 else c)
                     (map (\<lambda>c. if c = 45 then 43 else c) base64Part);
          padded = pad4 base64;
          unescaped = (case decodeURIComponent padded of None \<Rightarrow> padded | Some d \<Rightarrow> d);
          decoded = utf8_decode (b64_decode unescaped)
      in if \<not> startsWith decoded (js ''http://'') \<and> \<not> startsWith decoded (js ''https://'')
         then None
         else if U decoded = None then None
         else Some decoded)"

section \<open>URL-rewriting proxy: rewriting, routing, fetching\<close>

text \<open>\<^verbatim>\<open>s.includes(p)\<close>.\<close>

fun js_includes :: "'a list \<Rightarrow> 'a list \<Rightarrow> bool" where
  "js_includes [] p = (p = [])"
| "js_includes (c # cs) p = (startsWith (c # cs) p \<or> js_includes cs p)"

text \<open>\<^verbatim>\<open>p.substring(0, p.lastIndexOf('/') + 1)\<close>: up to and including the last slash, empty
  when there is none.\<close>

definition basePath :: "jsstring \<Rightarrow> jsstring" where
  "basePath p = rev (dropWhile (\<lambda>c. c \<noteq> 47) (rev p))"

text \<open>
  The absolute URL that \<^verbatim>\<open>toProxyUrl\<close> and the callbacks of \<^verbatim>\<open>rewriteCss\<close> compute for a
  reference \<open>u\<close> found in a document with base \<open>base\<close>, and the proxy URL built from it.
\<close>

definition absolutize :: "url \<Rightarrow> jsstring \<Rightarrow> jsstring" where
  "absolutize base u =
     (if startsWith u (js ''//'') then protocol base @ u
      else if startsWith u (js ''/'') then origin base @ u
      else if \<not> js_includes u (js ''://'') then origin base @ basePath (pathname base) @ u
      else u)"

definition proxyUrlOf :: "url_parser \<Rightarrow> jsstring \<Rightarrow> jsstring \<Rightarrow> jsstring" where
  "proxyUrlOf U proxyOrigin absolute =
     (case U absolute of
        Some targetUrl \<Rightarrow>
          proxyOrigin @ pathname targetUrl
            @ (if search targetUrl \<noteq> [] then search targetUrl @ js ''&'' else js ''?'')
            @ js ''__cpo='' @ encodeUrl absolute
      | None \<Rightarrow> proxyOrigin @ js ''/?__cpo='' @ encodeUrl absolute)"

text \<open>\<^verbatim>\<open>toProxyUrl\<close> of \<^verbatim>\<open>rewriteUrls\<close>: applied to every attribute value and \<^verbatim>\<open>url(...)\<close>
  reference that the HTML patterns match.\<close>

definition toProxyUrl :: "url_parser \<Rightarrow> url \<Rightarrow> jsstring \<Rightarrow> jsstring \<Rightarrow> jsstring" where
  "toProxyUrl U base proxyOrigin u =
     (if u = [] \<or> startsWith u (js ''data:'') \<or> startsWith u (js ''blob:'')
         \<or> startsWith u (js ''javascript:'') \<or> startsWith u (js ''#'')
      then u
      else proxyUrlOf U proxyOrigin (absolutize base u))"

text \<open>
  The callbacks of the two \<^verbatim>\<open>replace\<close> calls of \<^verbatim>\<open>rewriteCss\<close>: \<open>m\<close> is the matched text,
  \<open>u\<close> the captured reference; the result replaces the match.
\<close>

definition rewriteCssUrl :: "url_parser \<Rightarrow> url \<Rightarrow> jsstring \<Rightarrow> jsstring \<Rightarrow> jsstring \<Rightarrow> jsstring" where
  \<open>rewriteCssUrl U base proxyOrigin m u =
     (if startsWith u (js ''data:'') then m
      else js ''url("'' @ proxyUrlOf U proxyOrigin (absolutize base u) @ js ''")'')\<close>

definition rewriteCssImport :: "url_parser \<Rightarrow> url \<Rightarrow> jsstring \<Rightarrow> jsstring \<Rightarrow> jsstring" where
  \<open>rewriteCssImport U base proxyOrigin u =
     js ''@import "'' @ proxyUrlOf U proxyOrigin (absolutize base u) @ js ''"''\<close>

text \<open>
  \<^verbatim>\<open>referer.match(/__cpo=([A-Za-z0-9+/=_-]+)/)\<close>: the first place where \<^verbatim>\<open>__cpo=\<close> is
  followed by a character of the class; the capture is the longest run of such characters.
\<close>

definition cpo_class :: "16 word \<Rightarrow> bool" where
  "cpo_class c =
     (let n = unat c
      in (65 \<le> n \<and> n \<le> 90) \<or> (97 \<le> n \<and> n \<le> 122) \<or> (48 \<le> n \<and> n \<le> 57)
         \<or> n = 43 \<or> n = 47 \<or> n = 61 \<or> n = 95 \<or> n = 45)"

fun cpo_match :: "jsstring \<Rightarrow> jsstring option" where
  "cpo_match [] = None"
| "cpo_match (c # cs) =
     (if startsWith (c # cs) (js ''__cpo='') \<and> takeWhile cpo_class (drop 6 (c # cs)) \<noteq> []
      then Some (takeWhile cpo_class (drop 6 (c # cs)))
      else cpo_match cs)"

text \<open>
  A request to the proxy, as far as the router reads it: the method, the \<^verbatim>\<open>__cpo\<close> query
  parameter (\<open>None\<close> when absent), the headers \<^verbatim>\<open>referer\<close> and \<^verbatim>\<open>x-forwarded-for\<close>, and
  the socket's remote address.
\<close>

record proxy_request =
  proxyMethod :: string
  cpoParam :: "jsstring option"
  referer :: "jsstring option"
  forwardedFor :: "jsstring option"
  socketAddress :: "jsstring option"

definition proxyClientId :: "proxy_request \<Rightarrow> jsstring" where
  "proxyClientId req =
     (if truthy (forwardedFor req) then the (forwardedFor req)
      else if truthy (socketAddress req) then the (socketAddress req)
      else js ''default'')"

text \<open>
  The block that handles a decoded target naming localhost. An exception anywhere in it
  is caught and leaves \<^verbatim>\<open>targetUrl\<close> as it is at that moment: \<open>Inl\<close> carries that value
  out of the block, \<open>Inr\<close> goes on.
\<close>

definition resolveLocalhost ::
    "url_parser \<Rightarrow> (jsstring \<rightharpoonup> jsstring) \<Rightarrow> proxy_request \<Rightarrow> jsstring \<Rightarrow> jsstring" where
  "resolveLocalhost U sessionBaseUrls req targetUrl =
     (if js_includes targetUrl (js ''localhost:'') \<or> js_includes targetUrl (js ''127.0.0.1:'') then
        (case U targetUrl of
           None \<Rightarrow> targetUrl
         | Some localUrl \<Rightarrow>
             (let localPath = pathname localUrl @ search localUrl;
                  ref = (if truthy (referer req) then the (referer req) else []);
                  t1 = (case cpo_match ref of
                          None \<Rightarrow> Inr targetUrl
                        | Some m \<Rightarrow>
                            (case decodeUrl U m of
                               None \<Rightarrow> Inr targetUrl
                             | Some refererBase \<Rightarrow>
                                 if refererBase \<noteq> [] \<and> \<not> js_includes refererBase (js ''localhost'')
                                 then (case U refererBase of
                                         None \<Rightarrow> Inl targetUrl
                                       | Some realBase \<Rightarrow> Inr (origin realBase @ localPath))
                                 else Inr targetUrl))
              in case t1 of
                   Inl t \<Rightarrow> t
                 | Inr t \<Rightarrow>
                     if js_includes t (js ''localhost'') then
                       (case sessionBaseUrls (proxyClientId req) of
                          None \<Rightarrow> t
                        | Some sessionBase \<Rightarrow>
                            if sessionBase \<noteq> [] \<and> \<not> js_includes sessionBase (js ''localhost'')
                            then (case U sessionBase of
                                    None \<Rightarrow> t
                                  | Some realBase \<Rightarrow> origin realBase @ localPath)
                            else t)
                     else t))
      else targetUrl)"

text \<open>
  The request handler up to the call of \<^verbatim>\<open>fetchUrl\<close> in its \<^verbatim>\<open>__cpo\<close> branch: 200 for a
  CORS preflight, which is answered first, 400 for a token that does not decode, otherwise
  the URL that is fetched, and the base URL map with the entry of this client overwritten.
  \<open>None\<close>: the request has no \<^verbatim>\<open>__cpo\<close> and is handled by the other branches.
\<close>

datatype proxy_decision = Preflight200 | InvalidCpo400 | FetchTarget jsstring

definition proxyRequest ::
    "url_parser \<Rightarrow> (jsstring \<rightharpoonup> jsstring) \<Rightarrow> proxy_request
       \<Rightarrow> (proxy_decision \<times> (jsstring \<rightharpoonup> jsstring)) option" where
  "proxyRequest U sessionBaseUrls req =
     (if proxyMethod req = ''OPTIONS'' then Some (Preflight200, sessionBaseUrls)
      else if truthy (cpoParam req) then
        (case decodeUrl U (the (cpoParam req)) of
           None \<Rightarrow> Some (InvalidCpo400, sessionBaseUrls)
         | Some targetUrl \<Rightarrow>
             (let t = resolveLocalhost U sessionBaseUrls req targetUrl
              in Some (FetchTarget t, sessionBaseUrls(proxyClientId req \<mapsto> t))))
      else None)"

subsection \<open>Upstream fetcher\<close>








subsection \<open>A parser for plain URLs\<close>

text \<open>
  For the examples: what \<^verbatim>\<open>new URL\<close> returns on a string of the shape
  \<^verbatim>\<open>http[s]://host[:port][/path][?query]\<close> in lower case, without default port, fragment,
  dot segments or characters that the constructor would escape; every other string is
  taken to throw.
\<close>

definition plain_url :: url_parser where
  "plain_url x =
     (let scheme = (if startsWith x (js ''https://'') then js ''https:''
                    else if startsWith x (js ''http://'') then js ''http:'' else []);
          rest = drop (length scheme + 2) x;
          authority = takeWhile (\<lambda>c. c \<noteq> 47 \<and> c \<noteq> 63) rest;
          after = dropWhile (\<lambda>c. c \<noteq> 47 \<and> c \<noteq> 63) rest;
          path = takeWhile (\<lambda>c. c \<noteq> 63) after;
          query = dropWhile (\<lambda>c. c \<noteq> 63) after
      in if scheme = [] \<or> authority = [] then None
         else Some \<lparr>href = scheme @ js ''//'' @ authority @ (if path = [] then js ''/'' else path)
                             @ query,
                    protocol = scheme,
                    hostname = takeWhile (\<lambda>c. c \<noteq> 58) authority,
                    origin = scheme @ js ''//'' @ authority,
                    pathname = (if path = [] then js ''/'' else path),
                    search = (if query = js ''?'' then [] else query)\<rparr>)"


subsection \<open>Notions and examples used by the properties of the proxy\<close>





definition local_request :: proxy_request where
  "local_request =
     \<lparr>proxyMethod = ''GET'', cpoParam = Some (js ''aHR0cDovL2xvY2FsaG9zdDozMDAzL3g''), referer = None,
      forwardedFor = None, socketAddress = Some (js ''10.0.0.7'')\<rparr>"

definition proxied_reference :: jsstring where
  "proxied_reference = js ''http://localhost:3003/i.png?__cpo=aHR0cHM6Ly9hLmNvbS9pLnBuZw''"

definition css_base :: url where
  "css_base = the (plain_url (js ''https://a.com/style.css''))"

fun well_formed :: "jsstring \<Rightarrow> bool" where
  "well_formed [] = True"
| "well_formed [c] = (\<not> is_high c \<and> \<not> is_low c)"
| "well_formed (c # d # cs) =
     (if is_high c then is_low d \<and> well_formed cs
      else \<not> is_low c \<and> well_formed (d # cs))"

text \<open>The six-bit groups of a byte sequence.\<close>

fun sextets :: "byte list \<Rightarrow> nat list" where
  "sextets [] = []"
| "sextets [a] = [unat a div 4, unat a mod 4 * 16]"
| "sextets [a, b] = [unat a div 4, unat a mod 4 * 16 + unat b div 16, unat b mod 16 * 4]"
| "sextets (a # b # c # bs) =
     [unat a div 4, unat a mod 4 * 16 + unat b div 16, unat b mod 16 * 4 + unat c div 64,
      unat c mod 64] @ sextets bs"

text \<open>The three \<^verbatim>\<open>replace\<close> calls of \<^verbatim>\<open>encodeUrl\<close> on one character, and the two of
  \<^verbatim>\<open>decodeUrl\<close>.\<close>

definition safe :: "16 word \<Rightarrow> 16 word" where
  "safe c = (if (if c = 43 then 45 else c) = 47 then 95 else (if c = 43 then 45 else c))"

definition unsafe :: "16 word \<Rightarrow> 16 word" where
  "unsafe c = (if (if c = 45 then 43 else c) = 95 then 47 else (if c = 45 then 43 else c))"

subsection \<open>Control plane: request-browser\<close>

text \<open>
  The handler of \<^verbatim>\<open>POST /api/request-browser\<close>. Of \<^verbatim>\<open>parsed.clientId\<close> it only asks
  whether it is a string and how long it is: \<open>Client_id_string c\<close> is a string value,
  \<open>Client_id_other\<close> anything else (a missing property, \<^verbatim>\<open>null\<close>, a number, a boolean,
  an object).
\<close>

datatype client_id_value = Client_id_string jsstring | Client_id_other

text \<open>
  What the handler reads of the request: the value of \<^verbatim>\<open>parsed.clientId\<close> (\<open>None\<close> when
  the body does not parse or \<^verbatim>\<open>parsed\<close> has no properties to read, which ends in the
  \<^verbatim>\<open>catch\<close>), the socket's remote address and the headers.
\<close>

record rb_request =
  parsedClientId :: "client_id_value option"
  rbForwardedFor :: "jsstring option"
  rbRemoteAddress :: "jsstring option"
  rbUserAgent :: "jsstring option"
  rbForwardedProto :: "jsstring option"
  rbForwardedHost :: "jsstring option"
  rbHost :: "jsstring option"

definition sourceIp :: "rb_request \<Rightarrow> jsstring" where
  "sourceIp req =
     (if truthy (rbForwardedFor req) then the (rbForwardedFor req)
      else if truthy (rbRemoteAddress req) then the (rbRemoteAddress req)
      else js ''unknown'')"

definition agentPrefix :: "rb_request \<Rightarrow> jsstring" where
  "agentPrefix req =
     take 50 (if truthy (rbUserAgent req) then the (rbUserAgent req) else js ''unknown'')"

definition autoClientId :: "rb_request \<Rightarrow> jsstring" where
  "autoClientId req =
     js ''auto_'' @ take 30 (b64_encode (utf8_encode (sourceIp req @ js ''|'' @ agentPrefix req)))"






definition anonymous_request :: "client_id_value \<Rightarrow> jsstring option \<Rightarrow> rb_request" where
  "anonymous_request v xff =
     \<lparr>parsedClientId = Some v, rbForwardedFor = xff, rbRemoteAddress = Some (js ''203.0.113.9''),
      rbUserAgent = Some (js ''Mozilla/5.0''), rbForwardedProto = None, rbForwardedHost = None,
      rbHost = Some (js ''nebula.example'')\<rparr>"

section \<open>Properties of the session broker\<close>

subsection \<open>Invariants of the runs\<close>

lemma getBrowserById_bid: "getBrowserById s i = Some b \<Longrightarrow> bid b = i"
  by (auto simp: getBrowserById_def find_Some_iff)

lemma getBrowserById_None: "getBrowserById s i = None \<longleftrightarrow> i \<notin> set (slot_ids s)"
  by (auto simp: getBrowserById_def find_None_iff slot_ids_def)

lemma map_bid_upd_first:
  "(\<And>x. bid x = i \<Longrightarrow> bid (f x) = i) \<Longrightarrow> map bid (upd_first i f bs) = map bid bs"
  by (induction bs) auto

lemma upd_browser_simps [simp]:
  "sessions (upd_browser i f s) = sessions s"
  "clientSessions (upd_browser i f s) = clientSessions s"
  "activeConnections (upd_browser i f s) = activeConnections s"
  "browserTokens (upd_browser i f s) = browserTokens s"
  "tokenToBrowser (upd_browser i f s) = tokenToBrowser s"
  "urlTokens (upd_browser i f s) = urlTokens s"
  "db (upd_browser i f s) = db s"
  "randomBytes (upd_browser i f s) = randomBytes s"
  "BROWSERS (upd_browser i f s) = upd_first i f (BROWSERS s)"
  by (simp_all add: upd_browser_def)

lemma sync_simps [simp]:
  "sessions (syncBrowserToFirebase b s) = sessions s"
  "clientSessions (syncBrowserToFirebase b s) = clientSessions s"
  "activeConnections (syncBrowserToFirebase b s) = activeConnections s"
  "browserTokens (syncBrowserToFirebase b s) = browserTokens s"
  "tokenToBrowser (syncBrowserToFirebase b s) = tokenToBrowser s"
  "urlTokens (syncBrowserToFirebase b s) = urlTokens s"
  "randomBytes (syncBrowserToFirebase b s) = randomBytes s"
  "BROWSERS (syncBrowserToFirebase b s) = BROWSERS s"
  by (simp_all add: syncBrowserToFirebase_def split: option.splits)

lemma spent_cong:
  "urlTokens s' = urlTokens s \<Longrightarrow> randomBytes s' = randomBytes s \<Longrightarrow> spent t s' = spent t s"
  by (simp add: spent_def)

lemma slot_ids_cong: "BROWSERS s' = BROWSERS s \<Longrightarrow> slot_ids s' = slot_ids s"
  by (simp add: slot_ids_def)

lemma slot_ids_upd [simp]:
  "(\<And>x. bid x = i \<Longrightarrow> bid (f x) = i) \<Longrightarrow> slot_ids (upd_browser i f s) = slot_ids s"
  by (simp add: slot_ids_def map_bid_upd_first)

lemma doRelease_spent: "spent t s \<Longrightarrow> spent t (doReleaseBrowser b s)"
  by (simp add: doReleaseBrowser_def spent_def Let_def)

lemma doRelease_ids: "slot_ids (doReleaseBrowser b s) = slot_ids s"
  by (simp add: doReleaseBrowser_def Let_def slot_ids_def map_bid_upd_first)

lemma gen_spent:
  "spent t s \<Longrightarrow> generateSecureToken s = (x, s') \<Longrightarrow> x \<noteq> t \<and> spent t s'"
  by (auto simp: generateSecureToken_def spent_def)

lemma gen_ids: "generateSecureToken s = (x, s') \<Longrightarrow> BROWSERS s' = BROWSERS s"
  by (auto simp: generateSecureToken_def)

lemma createUrlToken_spent: "spent t s \<Longrightarrow> spent t (snd (createUrlToken i now s))"
  by (auto simp: createUrlToken_def generateSecureToken_def spent_def Let_def split: option.splits)

lemma createUrlToken_ids: "slot_ids (snd (createUrlToken i now s)) = slot_ids s"
  by (auto simp: createUrlToken_def generateSecureToken_def slot_ids_def Let_def split: option.splits)

lemma createSessionTokens_spent: "spent t s \<Longrightarrow> spent t (snd (createSessionTokens i now s))"
  by (auto simp: createSessionTokens_def generateSecureToken_def spent_def Let_def split: option.splits)

lemma createSessionTokens_ids: "slot_ids (snd (createSessionTokens i now s)) = slot_ids s"
  by (auto simp: createSessionTokens_def generateSecureToken_def slot_ids_def Let_def split: option.splits)

lemma find_spent: "spent t s \<Longrightarrow> spent t (snd (findBrowserByClientId c s))"
  by (auto simp: findBrowserByClientId_def spent_def split: option.splits)

lemma find_ids: "slot_ids (snd (findBrowserByClientId c s)) = slot_ids s"
  by (auto simp: findBrowserByClientId_def slot_ids_def split: option.splits)

lemma find_bid: "findBrowserByClientId c s = (Some b, s') \<Longrightarrow> getBrowserById s' (bid b) = Some b"
  by (auto simp: findBrowserByClientId_def split: option.splits if_splits dest: getBrowserById_bid)



lemma spent_upd [simp]:
  "spent t (upd_browser i f s) = spent t s"
  "spent t (syncBrowserToFirebase b s) = spent t s"
  "spent t (s\<lparr>sessions := x1\<rparr>) = spent t s"
  "spent t (s\<lparr>clientSessions := x2\<rparr>) = spent t s"
  "spent t (s\<lparr>activeConnections := x3\<rparr>) = spent t s"
  "spent t (s\<lparr>browserTokens := x4\<rparr>) = spent t s"
  "spent t (s\<lparr>tokenToBrowser := x5\<rparr>) = spent t s"
  "spent t (s\<lparr>BROWSERS := x6\<rparr>) = spent t s"
  by (simp_all add: spent_def)

lemma slot_ids_upd2 [simp]:
  "slot_ids (syncBrowserToFirebase b s) = slot_ids s"
  "slot_ids (s\<lparr>sessions := x1\<rparr>) = slot_ids s"
  "slot_ids (s\<lparr>clientSessions := x2\<rparr>) = slot_ids s"
  "slot_ids (s\<lparr>activeConnections := x3\<rparr>) = slot_ids s"
  "slot_ids (s\<lparr>browserTokens := x4\<rparr>) = slot_ids s"
  "slot_ids (s\<lparr>tokenToBrowser := x5\<rparr>) = slot_ids s"
  "slot_ids (s\<lparr>urlTokens := x6\<rparr>) = slot_ids s"
  "slot_ids (s\<lparr>randomBytes := x7\<rparr>) = slot_ids s"
  by (simp_all add: slot_ids_def)

lemma gen_spent2: "spent t s \<Longrightarrow> spent t (snd (generateSecureToken s))"
  by (simp add: generateSecureToken_def spent_def)

lemma gen_ids2: "slot_ids (snd (generateSecureToken s)) = slot_ids s"
  by (simp add: generateSecureToken_def)

lemma assignExisting_spent: "spent t s \<Longrightarrow> spent t (snd (assignExisting sid cid now b s))"
  unfolding assignExisting_def Let_def
  by (simp add: split_beta createUrlToken_spent gen_spent2)

lemma assignExisting_ids: "slot_ids (snd (assignExisting sid cid now b s)) = slot_ids s"
  unfolding assignExisting_def Let_def
  by (simp add: split_beta createUrlToken_ids gen_ids2)

lemma assignNew_spent: "spent t s \<Longrightarrow> spent t (snd (assignNew sid cid now b s))"
  unfolding assignNew_def Let_def
  by (simp add: split_beta createSessionTokens_spent)

lemma assignNew_ids: "slot_ids (snd (assignNew sid cid now b s)) = slot_ids s"
  unfolding assignNew_def Let_def
  by (simp add: split_beta createSessionTokens_ids)

lemma assignBrowser_spent: "spent t s \<Longrightarrow> spent t (snd (assignBrowser sid cid now s))"
  using find_spent[of t s cid]
  by (auto simp: assignBrowser_def assignExisting_spent assignNew_spent split: prod.splits option.splits)

lemma assignBrowser_ids: "slot_ids (snd (assignBrowser sid cid now s)) = slot_ids s"
  using find_ids[of cid s]
  by (auto simp: assignBrowser_def assignExisting_ids assignNew_ids split: prod.splits option.splits)


lemma checkSession_spent: "spent t s \<Longrightarrow> spent t (snd (checkSession cid now s))"
  using find_spent[of t s "the cid"]
  unfolding checkSession_def Let_def
  by (simp add: split_beta createUrlToken_spent gen_spent2 doRelease_spent split: option.split)

lemma checkSession_ids: "slot_ids (snd (checkSession cid now s)) = slot_ids s"
  using find_ids[of "the cid" s]
  unfolding checkSession_def Let_def
  by (simp add: split_beta createUrlToken_ids gen_ids2 doRelease_ids split: option.split)

lemma heartbeat_spent: "spent t s \<Longrightarrow> spent t (snd (heartbeat i k now sample s))"
  unfolding heartbeat_def Let_def
  by (simp split: option.split)

lemma heartbeat_ids: "slot_ids (snd (heartbeat i k now sample s)) = slot_ids s"
  unfolding heartbeat_def Let_def
  by (simp split: option.split)

lemma release_spent: "spent t s \<Longrightarrow> spent t (snd (release cid i s))"
  using find_spent[of t s "the cid"]
  by (simp add: release_def doRelease_spent split_beta split: option.split)

lemma release_ids: "slot_ids (snd (release cid i s)) = slot_ids s"
  using find_ids[of "the cid" s]
  by (simp add: release_def doRelease_ids split_beta split: option.split)

lemma browserRoute_spent: "spent t s \<Longrightarrow> spent t (snd (browserRoute req s))"
  by (simp add: browserRoute_def spent_def Let_def split_beta split: option.split)

lemma browserRoute_ids: "slot_ids (snd (browserRoute req s)) = slot_ids s"
  by (simp add: browserRoute_def Let_def split_beta split: option.split)

lemma trackWsConnect_spent: "spent t s \<Longrightarrow> spent t (trackWsConnect i now s)"
  by (simp add: trackWsConnect_def Let_def split: option.split)

lemma trackWsConnect_ids: "slot_ids (trackWsConnect i now s) = slot_ids s"
  by (simp add: trackWsConnect_def Let_def split: option.split)

lemma trackWsDisconnect_spent: "spent t s \<Longrightarrow> spent t (trackWsDisconnect i now s)"
  by (simp add: trackWsDisconnect_def Let_def split: option.split)

lemma trackWsDisconnect_ids: "slot_ids (trackWsDisconnect i now s) = slot_ids s"
  by (simp add: trackWsDisconnect_def Let_def split: option.split)

lemma reap_spent: "spent t s \<Longrightarrow> spent t (reap now b s)"
  by (simp add: reap_def Let_def doRelease_spent)

lemma reap_ids: "slot_ids (reap now b s) = slot_ids s"
  by (simp add: reap_def Let_def doRelease_ids)

lemma fold_reap_spent: "spent t s \<Longrightarrow> spent t (fold (\<lambda>k s'. reap now (BROWSERS s' ! k) s') ks s)"
  by (induction ks arbitrary: s) (simp_all add: reap_spent)

lemma fold_reap_ids: "slot_ids (fold (\<lambda>k s'. reap now (BROWSERS s' ! k) s') ks s) = slot_ids s"
  by (induction ks arbitrary: s) (simp_all add: reap_ids)

lemma cleanupSessions_spent: "spent t s \<Longrightarrow> spent t (cleanupSessions now s)"
  by (simp add: cleanupSessions_def fold_reap_spent)

lemma cleanupSessions_ids: "slot_ids (cleanupSessions now s) = slot_ids s"
  by (simp add: cleanupSessions_def fold_reap_ids)

lemma cleanupUrlTokens_spent: "spent t s \<Longrightarrow> spent t (cleanupUrlTokens now s)"
  by (simp add: cleanupUrlTokens_def spent_def)

lemma cleanupUrlTokens_ids: "slot_ids (cleanupUrlTokens now s) = slot_ids s"
  by (simp add: cleanupUrlTokens_def)

lemma step_spent: "spent t s \<Longrightarrow> spent t (step ev s)"
  by (cases ev)
     (simp_all add: assignBrowser_spent checkSession_spent heartbeat_spent release_spent
        browserRoute_spent trackWsConnect_spent trackWsDisconnect_spent cleanupSessions_spent
        cleanupUrlTokens_spent)

lemma step_ids: "slot_ids (step ev s) = slot_ids s"
  by (cases ev)
     (simp_all add: assignBrowser_ids checkSession_ids heartbeat_ids release_ids
        browserRoute_ids trackWsConnect_ids trackWsDisconnect_ids cleanupSessions_ids
        cleanupUrlTokens_ids)

lemma run_spent: "spent t s \<Longrightarrow> spent t (run evs s)"
  unfolding run_def by (induction evs arbitrary: s) (simp_all add: step_spent)

lemma run_ids: "slot_ids (run evs s) = slot_ids s"
  unfolding run_def by (induction evs arbitrary: s) (simp_all add: step_ids)


lemma browserRoute_preflight:
  "reqMethod req = ''OPTIONS'' \<Longrightarrow> browserRoute req s = (Preflight204, s)"
  by (simp add: browserRoute_def)

lemma browserRoute_consume:
  assumes "urlTokens s t = Some e"
    and "getBrowserById s (ue_browserId e) \<noteq> None"
    and "reqMethod req \<noteq> ''OPTIONS''"
    and "routeBrowserId req = ue_browserId e"
    and "tokenParam req = Some t"
    and "\<not> validateBrowserAccess s (reqCookies req) (ue_browserId e)"
  shows "browserRoute req s =
           (Proxied [Nebula_session (ue_cookieToken e), Nebula_browser (ue_browserId e)],
            s\<lparr>urlTokens := (urlTokens s)(t := None)\<rparr>)"
proof -
  obtain b where b: "getBrowserById s (ue_browserId e) = Some b"
    using assms(2) by auto
  then have "bid b = ue_browserId e" by (rule getBrowserById_bid)
  with b assms(1,3,4,5,6) show ?thesis by (simp add: browserRoute_def)
qed

lemma browserRoute_denied:
  assumes "\<not> validateBrowserAccess s (reqCookies req) (routeBrowserId req)"
    and "tokenParam req = None \<or> urlTokens s (the (tokenParam req)) = None
         \<or> (\<exists>e. urlTokens s (the (tokenParam req)) = Some e \<and> ue_browserId e \<noteq> routeBrowserId req)"
  shows "browserRoute req s =
           (if reqMethod req = ''OPTIONS'' then Preflight204
            else if getBrowserById s (routeBrowserId req) = None then NotFound404
            else AccessDenied403, s)"
proof (cases "getBrowserById s (routeBrowserId req)")
  case None
  then show ?thesis by (simp add: browserRoute_def)
next
  case (Some b)
  then have "bid b = routeBrowserId req" by (rule getBrowserById_bid)
  with Some assms show ?thesis by (auto simp add: browserRoute_def split: option.splits)
qed

lemma js_lit_nonempty: "js (c # cs) \<noteq> []"
  by (simp add: js_def)

lemmas bsb_defs = assignBrowser_def findBrowserByClientId_def findAvailableBrowser_def
  assignNew_def assignExisting_def createSessionTokens_def createUrlToken_def
  generateSecureToken_def syncBrowserToFirebase_def upd_browser_def init_state_def
  BROWSERS_init_def freeBrowser_def getBrowserById_def truthy_def js_lit_nonempty

lemma demo_state_urlTokens: "urlTokens demo_state ''aa'' = Some (UrlEntry 1 ''a'' 1000)"
  by (simp add: demo_state_def demo_random_def bsb_defs Let_def)

lemma demo_state_slot1: "getBrowserById demo_state 1 \<noteq> None"
  by (simp add: demo_state_def demo_random_def bsb_defs Let_def)

lemma demo_state_slot2: "getBrowserById demo_state 2 \<noteq> None"
  by (simp add: demo_state_def demo_random_def bsb_defs Let_def)

lemma demo_state_random: "randomBytes demo_state n \<noteq> ''aa''"
  by (simp add: demo_state_def demo_random_def bsb_defs Let_def)

lemma validate_urlTokens [simp]:
  "validateBrowserAccess (s\<lparr>urlTokens := x\<rparr>) c i = validateBrowserAccess s c i"
  by (simp add: validateBrowserAccess_def split: option.split)

lemma no_cookies_invalid: "\<not> validateBrowserAccess s no_cookies i"
  by (simp add: validateBrowserAccess_def no_cookies_def)

text \<open>
  Claim C1. A URL token grants access at most once. Let \<open>t\<close> be a token minted for an
  existing slot (its entry \<open>e\<close> in \<^verbatim>\<open>urlTokens\<close> names the slot), presented on that slot's
  path by a request that is not a CORS preflight and has no valid session cookie: the
  request is let through, the response sets the cookie \<^verbatim>\<open>nebula_session\<close> to the partner
  cookie token, and \<open>t\<close> is deleted. After any further run of the server, during which the
  generator does not return \<open>t\<close> a second time, every request on an existing slot that
  presents \<open>t\<close> and has no valid session cookie is answered 403, so the cookie is not set
  again; the one exception is a preflight (method \<^verbatim>\<open>OPTIONS\<close>), which the handler answers
  204 before it looks at the path, with no access and no cookie.
\<close>

theorem url_token_single_use:
  assumes minted: "urlTokens s t = Some e"
    and slot: "getBrowserById s (ue_browserId e) \<noteq> None"
    and first: "reqMethod req \<noteq> ''OPTIONS''" "routeBrowserId req = ue_browserId e"
      "tokenParam req = Some t"
      "\<not> validateBrowserAccess s (reqCookies req) (ue_browserId e)"
    and gen: "\<forall>n. randomBytes s n \<noteq> t"
    and later: "getBrowserById s (routeBrowserId req') \<noteq> None" "tokenParam req' = Some t"
      "\<not> validateBrowserAccess (run evs (snd (browserRoute req s))) (reqCookies req')
           (routeBrowserId req')"
  shows "browserRoute req s =
           (Proxied [Nebula_session (ue_cookieToken e), Nebula_browser (ue_browserId e)],
            s\<lparr>urlTokens := (urlTokens s)(t := None)\<rparr>)
         \<and> fst (browserRoute req' (run evs (snd (browserRoute req s)))) =
             (if reqMethod req' = ''OPTIONS'' then Preflight204 else AccessDenied403)"
proof -
  let ?s1 = "s\<lparr>urlTokens := (urlTokens s)(t := None)\<rparr>"
  have one: "browserRoute req s =
      (Proxied [Nebula_session (ue_cookieToken e), Nebula_browser (ue_browserId e)], ?s1)"
    using minted slot first by (rule browserRoute_consume)
  have "spent t ?s1" using gen by (simp add: spent_def)
  then have sp: "spent t (run evs ?s1)" by (rule run_spent)
  have ids: "slot_ids (run evs ?s1) = slot_ids s"
    by (simp add: run_ids)
  have "browserRoute req' (run evs ?s1) =
      (if reqMethod req' = ''OPTIONS'' then Preflight204
       else if getBrowserById (run evs ?s1) (routeBrowserId req') = None then NotFound404
       else AccessDenied403, run evs ?s1)"
    using later sp one by (intro browserRoute_denied) (simp_all add: spent_def)
  then show ?thesis using one ids later(1) by (simp add: getBrowserById_None)
qed

theorem url_token_single_use_witness:
  "browserRoute (token_request 1 ''aa'') demo_state =
     (Proxied [Nebula_session ''a'', Nebula_browser 1],
      demo_state\<lparr>urlTokens := (urlTokens demo_state)(''aa'' := None)\<rparr>)
   \<and> fst (browserRoute (token_request 1 ''aa'')
            (run [Ev_cleanup_url_tokens 2000, Ev_request_browser ''sess_2'' (js ''client-0002'') 3000]
               (snd (browserRoute (token_request 1 ''aa'') demo_state)))) = AccessDenied403"
proof -
  let ?e = "UrlEntry 1 ''a'' 1000"
  let ?r = "token_request 1 ''aa''"
  have h1: "reqMethod ?r \<noteq> ''OPTIONS''"
    by (simp add: token_request_def)
  have h2: "getBrowserById demo_state (ue_browserId ?e) \<noteq> None"
    unfolding url_entry.sel by (rule demo_state_slot1)
  have h3: "routeBrowserId ?r = ue_browserId ?e" "tokenParam ?r = Some ''aa''"
    by (simp_all add: token_request_def)
  have h4: "\<not> validateBrowserAccess s (reqCookies ?r) i" for s i
    by (simp add: token_request_def no_cookies_invalid)
  have h5: "\<forall>n. randomBytes demo_state n \<noteq> ''aa''"
    by (simp add: demo_state_random)
  have h6: "getBrowserById demo_state (routeBrowserId ?r) \<noteq> None"
    unfolding token_request_def request.simps by (rule demo_state_slot1)
  show ?thesis
    using url_token_single_use[OF demo_state_urlTokens h2 h1 h3 h4 h5 h6 h3(2) h4]
    unfolding url_entry.sel if_not_P[OF h1] .
qed

text \<open>
  Claim C10. A URL token presented on the path of another existing slot than the one it
  was minted for, by a request that is not a CORS preflight and has no valid session
  cookie, is rejected with 403 and the state, \<^verbatim>\<open>urlTokens\<close> included, is unchanged;
  afterwards the token still grants access on its own slot, with the partner cookie, and a
  second use there is answered 403 (204 for a preflight, which is answered before the path
  is looked at).
\<close>

theorem url_token_wrong_slot:
  assumes minted: "urlTokens s t = Some e"
    and own: "getBrowserById s (ue_browserId e) \<noteq> None"
    and other: "reqMethod req \<noteq> ''OPTIONS''" "getBrowserById s (routeBrowserId req) \<noteq> None"
      "routeBrowserId req \<noteq> ue_browserId e" "tokenParam req = Some t"
      "\<not> validateBrowserAccess s (reqCookies req) (routeBrowserId req)"
    and first: "reqMethod req1 \<noteq> ''OPTIONS''" "routeBrowserId req1 = ue_browserId e"
      "tokenParam req1 = Some t"
      "\<not> validateBrowserAccess s (reqCookies req1) (ue_browserId e)"
    and second: "routeBrowserId req2 = ue_browserId e" "tokenParam req2 = Some t"
      "\<not> validateBrowserAccess s (reqCookies req2) (ue_browserId e)"
  shows "browserRoute req s = (AccessDenied403, s)
         \<and> browserRoute req1 (snd (browserRoute req s)) =
             (Proxied [Nebula_session (ue_cookieToken e), Nebula_browser (ue_browserId e)],
              s\<lparr>urlTokens := (urlTokens s)(t := None)\<rparr>)
         \<and> fst (browserRoute req2 (snd (browserRoute req1 (snd (browserRoute req s))))) =
             (if reqMethod req2 = ''OPTIONS'' then Preflight204 else AccessDenied403)"
proof -
  let ?s1 = "s\<lparr>urlTokens := (urlTokens s)(t := None)\<rparr>"
  have "browserRoute req s =
      (if reqMethod req = ''OPTIONS'' then Preflight204
       else if getBrowserById s (routeBrowserId req) = None then NotFound404
       else AccessDenied403, s)"
    using minted other by (intro browserRoute_denied) auto
  then have a: "browserRoute req s = (AccessDenied403, s)"
    using other(1,2) by simp
  have b: "browserRoute req1 s =
      (Proxied [Nebula_session (ue_cookieToken e), Nebula_browser (ue_browserId e)], ?s1)"
    using minted own first by (rule browserRoute_consume)
  have v: "\<not> validateBrowserAccess ?s1 (reqCookies req2) (routeBrowserId req2)"
    using second by simp
  have g: "getBrowserById ?s1 (routeBrowserId req2) \<noteq> None"
    using own second by (simp add: getBrowserById_def)
  have "browserRoute req2 ?s1 =
      (if reqMethod req2 = ''OPTIONS'' then Preflight204
       else if getBrowserById ?s1 (routeBrowserId req2) = None then NotFound404
       else AccessDenied403, ?s1)"
    using v second(2) by (intro browserRoute_denied) simp_all
  with g have c: "browserRoute req2 ?s1 =
      (if reqMethod req2 = ''OPTIONS'' then Preflight204 else AccessDenied403, ?s1)"
    by auto
  show ?thesis using a b c by simp
qed

theorem url_token_wrong_slot_witness:
  "browserRoute (token_request 2 ''aa'') demo_state = (AccessDenied403, demo_state)
   \<and> browserRoute (token_request 1 ''aa'') (snd (browserRoute (token_request 2 ''aa'') demo_state)) =
       (Proxied [Nebula_session ''a'', Nebula_browser 1],
        demo_state\<lparr>urlTokens := (urlTokens demo_state)(''aa'' := None)\<rparr>)
   \<and> fst (browserRoute (token_request 1 ''aa'')
        (snd (browserRoute (token_request 1 ''aa'')
           (snd (browserRoute (token_request 2 ''aa'') demo_state))))) = AccessDenied403"
proof -
  let ?e = "UrlEntry 1 ''a'' 1000"
  let ?r = "token_request 1 ''aa''"
  let ?o = "token_request 2 ''aa''"
  have m: "reqMethod (token_request i ''aa'') \<noteq> ''OPTIONS''" for i
    by (simp add: token_request_def)
  have h2: "getBrowserById demo_state (ue_browserId ?e) \<noteq> None"
    unfolding url_entry.sel by (rule demo_state_slot1)
  have o1: "getBrowserById demo_state (routeBrowserId ?o) \<noteq> None"
    unfolding token_request_def request.simps by (rule demo_state_slot2)
  have o2: "routeBrowserId ?o \<noteq> ue_browserId ?e" "tokenParam ?o = Some ''aa''"
    by (simp_all add: token_request_def)
  have o3: "\<not> validateBrowserAccess s (reqCookies ?o) i" for s i
    by (simp add: token_request_def no_cookies_invalid)
  have h3: "routeBrowserId ?r = ue_browserId ?e" "tokenParam ?r = Some ''aa''"
    by (simp_all add: token_request_def)
  have h4: "\<not> validateBrowserAccess s (reqCookies ?r) i" for s i
    by (simp add: token_request_def no_cookies_invalid)
  show ?thesis
    using url_token_wrong_slot[OF demo_state_urlTokens h2 m o1 o2 o3 m h3 h4 h3 h4]
    unfolding url_entry.sel if_not_P[OF m] .
qed


subsection \<open>WebSocket upgrades\<close>

text \<open>
  Claim C2 as stated asks that every upgrade on \<^verbatim>\<open>/browser/<id>/<rest>\<close> without a valid
  session cookie be refused, the audio paths included. The handler skips the check for the
  audio side channel: an upgrade on \<^verbatim>\<open>/browser/1/audio\<close> without any cookie completes the
  handshake and starts the audio pipe.
\<close>

theorem upgrade_audio_counterexample:
  "wsRoute audio_upgrade = Some (1, ''/audio'')
   \<and> \<not> validateBrowserAccess demo_state (wsCookies audio_upgrade) 1
   \<and> upgrade audio_upgrade demo_state = WsAudio 1"
  by (simp add: audio_upgrade_def upgrade_def isAudioWs_def no_cookies_invalid truthy_def
      demo_state_def demo_random_def bsb_defs Let_def)

text \<open>
  Claim C2, amended. On \<^verbatim>\<open>/browser/<id>/<rest>\<close> for an existing slot, when \<^verbatim>\<open><rest>\<close> is
  neither \<^verbatim>\<open>/audio\<close> nor begins with \<^verbatim>\<open>/kasmaudio\<close>, the upgrade is tunneled to the slot's
  host and port exactly when the session cookie token maps to that slot, and is refused
  with 403 otherwise. On the audio paths the cookie is not consulted: the handler serves
  the audio side channel (or answers 400 when the WebSocket key is missing).
\<close>

theorem upgrade_access_control:
  assumes "wsRoute req = Some (i, rest)" and "getBrowserById s i = Some b"
  shows "(rest \<noteq> ''/audio'' \<and> \<not> startsWith rest ''/kasmaudio'' \<longrightarrow>
            upgrade req s =
              (if validateBrowserAccess s (wsCookies req) i
               then WsTunnel (host b) (port b) (rest @ wsSearch req) else WsForbidden403))
         \<and> (rest = ''/audio'' \<or> startsWith rest ''/kasmaudio'' \<longrightarrow>
            upgrade req s = (if truthy (wsKey req) then WsAudio i else WsAudioMissingKey400))"
  using assms getBrowserById_bid[OF assms(2)]
  by (auto simp: upgrade_def isAudioWs_def)

lemma demo_state_browser1:
  "getBrowserById demo_state 1 =
     Some \<lparr>bid = 1, port = 6901, audioPort = 4901, host = ''localhost'', inUse = True,
           lastUsed = Some 1000, lastHeartbeat = Some 1000, userId = Some ''sess_1'',
           sessionId = Some ''sess_1'', clientId = Some (js ''client-0001'')\<rparr>"
  by (simp add: demo_state_def demo_random_def bsb_defs Let_def)

lemma demo_state_cookie: "tokenToBrowser demo_state ''a'' = Some 1"
  by (simp add: demo_state_def demo_random_def bsb_defs Let_def)

theorem upgrade_access_control_witness:
  "upgrade (vnc_upgrade (Some ''a'')) demo_state = WsTunnel ''localhost'' 6901 ''/websockify''
   \<and> upgrade (vnc_upgrade None) demo_state = WsForbidden403"
proof -
  have r: "wsRoute (vnc_upgrade c) = Some (1, ''/websockify'')" for c
    by (simp add: vnc_upgrade_def)
  have v: "validateBrowserAccess demo_state (wsCookies (vnc_upgrade (Some ''a''))) 1"
    "\<not> validateBrowserAccess demo_state (wsCookies (vnc_upgrade None)) 1"
    by (simp_all add: vnc_upgrade_def validateBrowserAccess_def demo_state_cookie)
  have p: "''/websockify'' \<noteq> ''/audio'' \<and> \<not> startsWith ''/websockify'' ''/kasmaudio''"
    by (simp add: startsWith_def)
  have s: "wsSearch (vnc_upgrade c) = []" for c
    by (simp add: vnc_upgrade_def)
  show ?thesis
    using upgrade_access_control[OF r demo_state_browser1, of "Some ''a''"]
      upgrade_access_control[OF r demo_state_browser1, of None] v p s
    by simp
qed

subsection \<open>Assignment\<close>






lemma getBrowserById_cong:
  "BROWSERS s' = BROWSERS s \<Longrightarrow> getBrowserById s' i = getBrowserById s i"
  by (simp add: getBrowserById_def)

lemma getBrowserById_simps [simp]:
  "getBrowserById (syncBrowserToFirebase b s) = getBrowserById s"
  "getBrowserById (s\<lparr>sessions := x1\<rparr>) = getBrowserById s"
  "getBrowserById (s\<lparr>clientSessions := x2\<rparr>) = getBrowserById s"
  "getBrowserById (s\<lparr>activeConnections := x3\<rparr>) = getBrowserById s"
  "getBrowserById (s\<lparr>browserTokens := x4\<rparr>) = getBrowserById s"
  "getBrowserById (s\<lparr>tokenToBrowser := x5\<rparr>) = getBrowserById s"
  "getBrowserById (s\<lparr>urlTokens := x6\<rparr>) = getBrowserById s"
  "getBrowserById (s\<lparr>randomBytes := x7\<rparr>) = getBrowserById s"
  by (simp_all add: getBrowserById_def fun_eq_iff)














lemma js_clients:
  "js ''client-0001'' \<noteq> js ''client-0002''" "js ''client-0002'' \<noteq> js ''client-0001''"
  by (simp_all add: js_def)

subsection \<open>Release\<close>

text \<open>
  Claim C3 holds of the code except for the session record. \<^verbatim>\<open>doReleaseBrowser\<close> deletes
  the first record of \<^verbatim>\<open>sessions\<close> that names the slot and leaves the loop, while
  \<^verbatim>\<open>assignBrowser\<close> adds one more record for the slot each time a client with a live
  session asks again. In the run below the first client asks twice and releases, then a
  second client is given the same slot and releases: every slot is free afterwards, and the
  record of the second client's session is still in \<^verbatim>\<open>sessions\<close>.
\<close>

theorem release_leaves_session_record:
  "sessions (run release_trace (init_state (Some Map.empty) demo_random)) =
     [(''sess_3'', Session 1 (js ''client-0002'') 3000 3000)]
   \<and> map inUse (BROWSERS (run release_trace (init_state (Some Map.empty) demo_random))) =
       [False, False, False, False, False, False, False, False, False, False]"
  by (simp add: release_trace_def run_def assignBrowser_def findBrowserByClientId_def
      findAvailableBrowser_def assignNew_def assignExisting_def createSessionTokens_def
      createUrlToken_def generateSecureToken_def syncBrowserToFirebase_def upd_browser_def
      getBrowserById_def truthy_def release_def doReleaseBrowser_def or_null_def
      num_or_null_def js_lit_nonempty js_clients init_state_def BROWSERS_init_def freeBrowser_def
      Let_def demo_random_def)

section \<open>Properties of the URL-rewriting proxy\<close>

lemma u8: "k < 256 \<Longrightarrow> unat (of_nat k :: byte) = k"
  by (simp add: unat_of_nat)

lemma split2: "(n::nat) = n div 64 * 64 + n mod 64"
  by simp

lemma split3: "(n::nat) = n div 4096 * 4096 + n div 64 mod 64 * 64 + n mod 64"
proof -
  have "n div 64 = n div 64 div 64 * 64 + n div 64 mod 64" by simp
  moreover have "n div 64 div 64 = n div 4096" by (simp add: div_mult2_eq)
  ultimately have "n div 64 = n div 4096 * 64 + n div 64 mod 64" by simp
  then have "n div 64 * 64 = (n div 4096 * 64 + n div 64 mod 64) * 64" by simp
  also have "\<dots> = n div 4096 * 4096 + n div 64 mod 64 * 64" by (simp add: algebra_simps)
  finally show ?thesis using split2[of n] by linarith
qed

lemma split4:
  "(n::nat) = n div 262144 * 262144 + n div 4096 mod 64 * 4096 + n div 64 mod 64 * 64 + n mod 64"
proof -
  have "n div 4096 = n div 4096 div 64 * 64 + n div 4096 mod 64" by simp
  moreover have "n div 4096 div 64 = n div 262144" by (simp add: div_mult2_eq)
  ultimately have "n div 4096 = n div 262144 * 64 + n div 4096 mod 64" by simp
  then have "n div 4096 * 4096 = (n div 262144 * 64 + n div 4096 mod 64) * 4096" by simp
  also have "\<dots> = n div 262144 * 262144 + n div 4096 mod 64 * 4096" by (simp add: algebra_simps)
  finally show ?thesis using split3[of n] by linarith
qed

lemma b3:
  assumes "n = a * 4096 + b * 64 + c" "b < 64" "c < (64::nat)" "2048 \<le> n" "n < 65536"
    "\<not> (55296 \<le> n \<and> n < 57344)"
  shows "a \<le> 15" "a = 0 \<Longrightarrow> 32 \<le> b" "a = 13 \<Longrightarrow> b \<le> 31"
  using assms by linarith+

lemma b4:
  assumes "n = a * 262144 + b * 4096 + c * 64 + d" "b < 64" "c < 64" "d < (64::nat)"
    "65536 \<le> n" "n < 1114112"
  shows "a \<le> 4" "a = 0 \<Longrightarrow> 16 \<le> b" "a = 4 \<Longrightarrow> b \<le> 15"
  using assms by linarith+


lemma dec1:
  assumes "n < 0x80"
  shows "utf8_decode (utf8_bytes n @ rest) = code_units n @ utf8_decode rest"
  using assms by (simp add: utf8_bytes_def code_units_def u8)

lemma dec2:
  assumes "0x80 \<le> n" "n < 0x800"
  shows "utf8_decode (utf8_bytes n @ rest) = code_units n @ utf8_decode rest"
proof -
  define a where "a = n div 64"
  define c where "c = n mod 64"
  have n: "n = a * 64 + c" and c: "c < 64" by (simp_all add: a_def c_def)
  have a: "2 \<le> a" "a \<le> 31" using n c assms by linarith+
  define b0 :: byte where "b0 = of_nat (0xC0 + a)"
  define b1 :: byte where "b1 = of_nat (0x80 + c)"
  have u0: "unat b0 = 0xC0 + a" unfolding b0_def using a by (intro u8) simp
  have u1: "unat b1 = 0x80 + c" unfolding b1_def using c by (intro u8) simp
  have r0: "\<not> unat b0 < 0x80" "in_range 0xC2 0xDF b0"
    using a by (simp_all add: u0 in_range_def)
  have r1: "in_range 0x80 0xBF b1" using c by (simp add: u1 in_range_def)
  have v: "(unat b0 - 0xC0) * 64 + (unat b1 - 0x80) = n" by (simp add: u0 u1 n)
  have "utf8_decode (b0 # b1 # rest) = code_units n @ utf8_decode rest"
    by (simp only: utf8_decode.simps r0 r1 v if_True if_False list.case)
  moreover have "utf8_bytes n = [b0, b1]"
    using assms by (simp add: utf8_bytes_def b0_def b1_def a_def c_def)
  ultimately show ?thesis by simp
qed

lemma dec3:
  assumes "0x800 \<le> n" "n < 0x10000" "\<not> (0xD800 \<le> n \<and> n < 0xE000)"
  shows "utf8_decode (utf8_bytes n @ rest) = code_units n @ utf8_decode rest"
proof -
  define a where "a = n div 4096"
  define b where "b = n div 64 mod 64"
  define c where "c = n mod 64"
  have n: "n = a * 4096 + b * 64 + c" unfolding a_def b_def c_def by (rule split3)
  have bc: "b < 64" "c < 64" by (simp_all add: b_def c_def)
  note bd = b3[OF n bc, of ] 
  have a: "a \<le> 15" using n bc assms by (intro b3(1)[of n a b c]) simp_all
  have a0: "a = 0 \<Longrightarrow> 32 \<le> b" using n bc assms by (intro b3(2)[of n a b c]) simp_all
  have a13: "a = 13 \<Longrightarrow> b \<le> 31" using n bc assms by (intro b3(3)[of n a b c]) simp_all
  define b0 :: byte where "b0 = of_nat (0xE0 + a)"
  define b1 :: byte where "b1 = of_nat (0x80 + b)"
  define b2 :: byte where "b2 = of_nat (0x80 + c)"
  have u0: "unat b0 = 0xE0 + a" unfolding b0_def using a by (intro u8) simp
  have u1: "unat b1 = 0x80 + b" unfolding b1_def using bc by (intro u8) simp
  have u2: "unat b2 = 0x80 + c" unfolding b2_def using bc by (intro u8) simp
  have r0: "\<not> unat b0 < 0x80" "\<not> in_range 0xC2 0xDF b0" "in_range 0xE0 0xEF b0"
    using a by (simp_all add: u0 in_range_def)
  have r1: "in_range (if unat b0 = 0xE0 then 0xA0 else 0x80)
                  (if unat b0 = 0xED then 0x9F else 0xBF) b1"
    using a0 a13 bc by (simp add: u0 u1 in_range_def)
  have r2: "in_range 0x80 0xBF b2" using bc by (simp add: u2 in_range_def)
  have v: "(unat b0 - 0xE0) * 4096 + (unat b1 - 0x80) * 64 + (unat b2 - 0x80) = n"
    by (simp add: u0 u1 u2 n)
  have "utf8_decode (b0 # b1 # b2 # rest) = code_units n @ utf8_decode rest"
    by (simp only: utf8_decode.simps r0 r1 r2 v if_True if_False list.case)
  moreover have "utf8_bytes n = [b0, b1, b2]"
    using assms by (simp add: utf8_bytes_def b0_def b1_def b2_def a_def b_def c_def)
  ultimately show ?thesis by simp
qed

lemma dec4:
  assumes "0x10000 \<le> n" "n < 0x110000"
  shows "utf8_decode (utf8_bytes n @ rest) = code_units n @ utf8_decode rest"
proof -
  define a where "a = n div 262144"
  define b where "b = n div 4096 mod 64"
  define c where "c = n div 64 mod 64"
  define d where "d = n mod 64"
  have n: "n = a * 262144 + b * 4096 + c * 64 + d" unfolding a_def b_def c_def d_def by (rule split4)
  have bc: "b < 64" "c < 64" "d < 64" by (simp_all add: b_def c_def d_def)
  have a: "a \<le> 4" using n bc assms by (intro b4(1)[of n a b c d]) simp_all
  have a0: "a = 0 \<Longrightarrow> 16 \<le> b" using n bc assms by (intro b4(2)[of n a b c d]) simp_all
  have a4: "a = 4 \<Longrightarrow> b \<le> 15" using n bc assms by (intro b4(3)[of n a b c d]) simp_all
  define b0 :: byte where "b0 = of_nat (0xF0 + a)"
  define b1 :: byte where "b1 = of_nat (0x80 + b)"
  define b2 :: byte where "b2 = of_nat (0x80 + c)"
  define b3 :: byte where "b3 = of_nat (0x80 + d)"
  have u0: "unat b0 = 0xF0 + a" unfolding b0_def using a by (intro u8) simp
  have u1: "unat b1 = 0x80 + b" unfolding b1_def using bc by (intro u8) simp
  have u2: "unat b2 = 0x80 + c" unfolding b2_def using bc by (intro u8) simp
  have u3: "unat b3 = 0x80 + d" unfolding b3_def using bc by (intro u8) simp
  have r0: "\<not> unat b0 < 0x80" "\<not> in_range 0xC2 0xDF b0" "\<not> in_range 0xE0 0xEF b0"
    "in_range 0xF0 0xF4 b0"
    using a by (simp_all add: u0 in_range_def)
  have r1: "in_range (if unat b0 = 0xF0 then 0x90 else 0x80)
                  (if unat b0 = 0xF4 then 0x8F else 0xBF) b1"
    using a0 a4 bc by (simp add: u0 u1 in_range_def)
  have r2: "in_range 0x80 0xBF b2" using bc by (simp add: u2 in_range_def)
  have r3: "in_range 0x80 0xBF b3" using bc by (simp add: u3 in_range_def)
  have v: "(unat b0 - 0xF0) * 262144 + (unat b1 - 0x80) * 4096 + (unat b2 - 0x80) * 64
             + (unat b3 - 0x80) = n"
    by (simp add: u0 u1 u2 u3 n)
  have "utf8_decode (b0 # b1 # b2 # b3 # rest) = code_units n @ utf8_decode rest"
    by (simp only: utf8_decode.simps r0 r1 r2 r3 v if_True if_False list.case)
  moreover have "utf8_bytes n = [b0, b1, b2, b3]"
    using assms by (simp add: utf8_bytes_def b0_def b1_def b2_def b3_def a_def b_def c_def d_def)
  ultimately show ?thesis by simp
qed

lemma u16: "k < 65536 \<Longrightarrow> unat (of_nat k :: 16 word) = k"
  by (simp add: unat_of_nat)

lemma unat16_bound: "unat (c :: 16 word) < 65536"
  using unsigned_less[of c, where 'a = nat] by simp

lemma code_units_single: "code_units (unat (c :: 16 word)) = [c]"
  using unat16_bound[of c] by (simp add: code_units_def)

lemma code_units_pair:
  assumes "is_high h" "is_low l"
  shows "code_units (pair_code_point h l) = [h, l]"
proof -
  define x where "x = unat h - 0xD800"
  define y where "y = unat l - 0xDC00"
  have h: "unat h = 0xD800 + x" and l: "unat l = 0xDC00 + y" and y: "y < 1024"
    using assms unfolding is_high_def is_low_def x_def y_def by linarith+
  have p: "pair_code_point h l = 0x10000 + (x * 1024 + y)"
    by (simp add: pair_code_point_def x_def y_def)
  have "(x * 1024 + y) div 1024 = x" "(x * 1024 + y) mod 1024 = y" using y by simp_all
  then have "code_units (pair_code_point h l) = [of_nat (0xD800 + x), of_nat (0xDC00 + y)]"
    unfolding p by (simp add: code_units_def)
  also have "of_nat (0xD800 + x) = h" unfolding h[symmetric] by simp
  also have "of_nat (0xDC00 + y) = l" unfolding l[symmetric] by simp
  finally show ?thesis .
qed

lemma pair_range:
  assumes "is_high h" "is_low l"
  shows "0x10000 \<le> pair_code_point h l" "pair_code_point h l < 0x110000"
  using assms unfolding pair_code_point_def is_high_def is_low_def by linarith+

lemma dec_unit:
  assumes "\<not> is_high c" "\<not> is_low c"
  shows "utf8_decode (utf8_bytes (unat c) @ rest) = c # utf8_decode rest"
proof -
  have s: "\<not> (0xD800 \<le> unat c \<and> unat c < 0xE000)"
    using assms by (auto simp: is_high_def is_low_def)
  consider "unat c < 0x80" | "0x80 \<le> unat c" "unat c < 0x800" | "0x800 \<le> unat c"
    by linarith
  then have "utf8_decode (utf8_bytes (unat c) @ rest) = code_units (unat c) @ utf8_decode rest"
  proof cases
    case 1 then show ?thesis by (rule dec1)
  next
    case 2 then show ?thesis by (rule dec2)
  next
    case 3 then show ?thesis using unat16_bound[of c] s by (intro dec3) simp_all
  qed
  then show ?thesis by (simp add: code_units_single)
qed

lemma dec_pair:
  assumes "is_high h" "is_low l"
  shows "utf8_decode (utf8_bytes (pair_code_point h l) @ rest) = h # l # utf8_decode rest"
  using dec4[OF pair_range[OF assms], of rest] code_units_pair[OF assms] by simp

lemma utf8_roundtrip: "well_formed s \<Longrightarrow> utf8_decode (utf8_encode s) = s"
proof (induction s rule: utf8_encode.induct)
  case 1
  then show ?case by simp
next
  case (2 c)
  then show ?case using dec_unit[of c "[]"] by simp
next
  case (3 c d cs)
  show ?case
  proof (cases "is_high c")
    case True
    with 3 show ?thesis by (simp add: dec_pair)
  next
    case False
    with 3 show ?thesis by (simp add: dec_unit)
  qed
qed


lemma unat8_bound: "unat (a :: byte) < 256"
  using unsigned_less[of a, where 'a = nat] by simp

lemma sextets_bound: "x \<in> set (sextets bs) \<Longrightarrow> x < 64"
proof (induction bs arbitrary: x rule: sextets.induct)
  case 1 then show ?case by simp
next
  case (2 a)
  then show ?case using unat8_bound[of a] by auto
next
  case (3 a b)
  have "unat a mod 4 * 16 + unat b div 16 < 64" "unat b mod 16 * 4 < 64" "unat a div 4 < 64"
    "unat a mod 4 * 16 < 64"
    using unat8_bound[of a] unat8_bound[of b] by simp_all
  with 3 show ?case by auto
next
  case (4 a b c bs)
  have "unat a mod 4 * 16 + unat b div 16 < 64" "unat b mod 16 * 4 + unat c div 64 < 64"
    "unat a div 4 < 64" "unat c mod 64 < 64"
    using unat8_bound[of a] unat8_bound[of b] unat8_bound[of c] by simp_all
  with 4 show ?case by auto
qed

lemma b64_encode_sextets:
  "\<exists>k. b64_encode bs = map b64_char (sextets bs) @ replicate k 61"
proof (induction bs rule: sextets.induct)
  case 1 show ?case by simp
next
  case (2 a) show ?case by (intro exI[of _ 2]) (simp add: numeral_2_eq_2)
next
  case (3 a b) show ?case by (intro exI[of _ 1]) simp
next
  case (4 a b c bs) then show ?case by auto
qed

lemma b64_char_unat: "i < 64 \<Longrightarrow> unat (b64_char i) =
    (if i < 26 then 65 + i else if i < 52 then 71 + i else if i < 62 then i - 4
     else if i = 62 then 43 else 47)"
  unfolding b64_char_def by (intro u16) auto

lemma unbase64_b64_char: "i < 64 \<Longrightarrow> unbase64 (b64_char i) = Some i"
  by (auto simp add: unbase64_def b64_char_unat Let_def)

lemma b64_char_word: "i < 64 \<Longrightarrow> b64_char i = c \<Longrightarrow> unat c \<in> {43, 47} \<union> {48..57} \<union> {65..90} \<union> {97..122}"
  using b64_char_unat[of i] by (auto split: if_splits)

lemma bytes_sextets: "b64_bytes (sextets bs) = bs"
proof (induction bs rule: sextets.induct)
  case 1 show ?case by simp
next
  case (2 a)
  have "unat a div 4 * 4 + unat a mod 4 * 16 div 16 = unat a" by simp
  then show ?case by simp
next
  case (3 a b)
  have "unat a div 4 * 4 + (unat a mod 4 * 16 + unat b div 16) div 16 = unat a"
    using unat8_bound[of b] by simp
  moreover have "(unat a mod 4 * 16 + unat b div 16) mod 16 * 16 + unat b mod 16 * 4 div 4 = unat b"
    using unat8_bound[of b] by simp
  ultimately show ?case by simp
next
  case (4 a b c bs)
  have "unat a div 4 * 4 + (unat a mod 4 * 16 + unat b div 16) div 16 = unat a"
    using unat8_bound[of b] by simp
  moreover have "(unat a mod 4 * 16 + unat b div 16) mod 16 * 16
      + (unat b mod 16 * 4 + unat c div 64) div 4 = unat b"
    using unat8_bound[of b] unat8_bound[of c] by simp
  moreover have "(unat b mod 16 * 4 + unat c div 64) mod 4 * 64 + unat c mod 64 = unat c"
    using unat8_bound[of c] by simp
  ultimately show ?case using 4 by simp
qed


lemma unat_b64_char_cases:
  assumes "i < 64"
  shows "unat (b64_char i) = 43 \<or> unat (b64_char i) = 47
         \<or> (48 \<le> unat (b64_char i) \<and> unat (b64_char i) \<le> 57)
         \<or> (65 \<le> unat (b64_char i) \<and> unat (b64_char i) \<le> 90)
         \<or> (97 \<le> unat (b64_char i) \<and> unat (b64_char i) \<le> 122)"
  using assms unfolding b64_char_unat[OF assms] by auto

lemma w16_eq: "((c :: 16 word) = numeral k) = (unat c = unat (numeral k :: 16 word))"
  by (simp add: word_unat_eq_iff)

lemma b64_char_neq:
  assumes "i < 64"
  shows "b64_char i \<noteq> 61" "b64_char i \<noteq> 63" "b64_char i \<noteq> 38" "b64_char i \<noteq> 37"
    "b64_char i \<noteq> 45" "b64_char i \<noteq> 95"
  using unat_b64_char_cases[OF assms] by (auto simp: w16_eq)

lemma safe_cases: "safe c = (if c = 43 then 45 else if c = 47 then 95 else c)"
  by (simp add: safe_def)

lemma unsafe_safe: "i < 64 \<Longrightarrow> unsafe (safe (b64_char i)) = b64_char i"
  using b64_char_neq[of i] by (simp add: safe_cases unsafe_def)

lemma safe_neq:
  assumes "i < 64"
  shows "safe (b64_char i) \<noteq> 61" "safe (b64_char i) \<noteq> 63" "safe (b64_char i) \<noteq> 38"
  using b64_char_neq[OF assms] by (simp_all add: safe_cases)

lemma map_safe:
  "map (\<lambda>c. if c = 47 then 95 else c) (map (\<lambda>c. if c = 43 then 45 else c) xs) = map safe xs"
  by (induction xs) (simp_all add: safe_def)

lemma map_unsafe:
  "map (\<lambda>c. if c = 95 then 47 else c) (map (\<lambda>c. if c = 45 then 43 else c) xs) = map unsafe xs"
  by (induction xs) (simp_all add: unsafe_def)

lemma encodeUrl_sextets:
  "encodeUrl u = map (\<lambda>i. safe (b64_char i)) (sextets (utf8_encode u))"
proof -
  obtain k where k: "b64_encode (utf8_encode u) =
      map b64_char (sextets (utf8_encode u)) @ replicate k 61"
    using b64_encode_sextets by blast
  have "filter (\<lambda>c. c \<noteq> 61) (map safe (map b64_char xs)) = map (\<lambda>i. safe (b64_char i)) xs"
    if "\<forall>x\<in>set xs. x < 64" for xs
    using that by (induction xs) (simp_all add: safe_neq)
  moreover have "filter (\<lambda>c. c \<noteq> 61) (map safe (replicate k 61)) = []"
    by (simp add: safe_cases)
  moreover have "encodeUrl u = filter (\<lambda>c. c \<noteq> 61) (map safe (b64_encode (utf8_encode u)))"
    by (simp only: encodeUrl_def map_safe)
  ultimately show ?thesis
    using sextets_bound[of _ "utf8_encode u"] by (simp add: k)
qed

lemma decodeURIComponent_plain: "37 \<notin> set s \<Longrightarrow> decodeURIComponent s = Some s"
  by (induction s) auto

lemma low_byte_small: "unat c < 256 \<Longrightarrow> low_byte c = c"
  by (simp add: low_byte_def)

lemma low_byte_b64_char: "i < 64 \<Longrightarrow> low_byte (b64_char i) = b64_char i"
  using unat_b64_char_cases[of i] by (intro low_byte_small) auto

lemma low_byte_chars:
  assumes "\<forall>x\<in>set xs. x < 64"
  shows "map low_byte (map b64_char xs @ replicate k 61) = map b64_char xs @ replicate k 61"
proof -
  have "map low_byte (map b64_char xs) = map b64_char xs"
    using assms by (induction xs) (simp_all add: low_byte_b64_char)
  moreover have "low_byte 61 = 61" by (simp add: low_byte_def)
  ultimately show ?thesis by simp
qed

lemma sextets_of_chars:
  assumes "\<forall>x\<in>set xs. x < 64"
  shows "List.map_filter unbase64 (takeWhile (\<lambda>c. c \<noteq> 61) (map b64_char xs @ replicate k 61)) = xs"
proof -
  have t: "takeWhile (\<lambda>c. c \<noteq> 61) (map b64_char xs @ replicate k 61) = map b64_char xs"
    using assms by (induction xs) (auto simp: b64_char_neq takeWhile_eq_Nil_iff intro: takeWhile_eq_Nil_iff[THEN iffD2])
  have "List.map_filter unbase64 (map b64_char xs) = xs"
    using assms by (induction xs) (simp_all add: List.map_filter_simps unbase64_b64_char)
  with t show ?thesis by simp
qed


lemma decodeUrl_encodeUrl:
  assumes wf: "well_formed u"
  shows "decodeUrl U (encodeUrl u) =
      (if \<not> startsWith u (js ''http://'') \<and> \<not> startsWith u (js ''https://'') then None
       else if U u = None then None else Some u)"
proof -
  define xs where "xs = sextets (utf8_encode u)"
  have b: "\<forall>x\<in>set xs. x < 64" unfolding xs_def using sextets_bound by blast
  have e: "encodeUrl u = map (\<lambda>i. safe (b64_char i)) xs"
    unfolding xs_def by (rule encodeUrl_sextets)
  have q: "takeWhile (\<lambda>c. c \<noteq> 63) (encodeUrl u) = encodeUrl u"
    unfolding e using b by (induction xs) (simp_all add: safe_neq)
  have a: "takeWhile (\<lambda>c. c \<noteq> 38) (encodeUrl u) = encodeUrl u"
    unfolding e using b by (induction xs) (simp_all add: safe_neq)
  have m: "map unsafe (encodeUrl u) = map b64_char xs"
    unfolding e using b by (induction xs) (simp_all add: unsafe_safe)
  define p where "p = pad4 (map b64_char xs)"
  have p: "p = map b64_char xs @ replicate ((4 - length xs mod 4) mod 4) 61"
    by (simp add: p_def pad4_def)
  have "37 \<notin> set p"
    unfolding p using b b64_char_neq(4) by auto
  then have d: "decodeURIComponent p = Some p" by (rule decodeURIComponent_plain)
  have lb: "map low_byte p = p"
    unfolding p using b by (rule low_byte_chars)
  have "b64_decode p = b64_bytes (List.map_filter unbase64 (takeWhile (\<lambda>c. c \<noteq> 61) p))"
    unfolding b64_decode_def lb ..
  also have "\<dots> = b64_bytes xs"
    unfolding p using b by (simp add: sextets_of_chars)
  finally have "b64_decode p = b64_bytes xs" .
  then have "b64_decode p = utf8_encode u"
    by (simp add: xs_def bytes_sextets)
  then have r: "utf8_decode (b64_decode p) = u"
    using wf by (simp add: utf8_roundtrip)
  show ?thesis
    unfolding decodeUrl_def Let_def q a map_unsafe m p_def[symmetric] d option.case r ..
qed


subsection \<open>The URL codec\<close>

lemma js_append: "js (a @ b) = js a @ js b"
  by (simp add: js_def)

lemma startsWith_append: "startsWith (p @ r) p"
  by (simp add: startsWith_def)

lemma unat_js_char: "unat (of_nat (of_char c) :: 16 word) < 256"
proof -
  have a: "of_char c < (256 :: nat)" by (rule nat_of_char_less_256)
  then have "(of_char c :: nat) < 65536" by linarith
  then have "unat (of_nat (of_char c) :: 16 word) = of_char c" by (rule u16)
  then show ?thesis using a by (simp only:)
qed

lemma well_formed_low: "\<forall>c\<in>set s. unat c < 0xD800 \<Longrightarrow> well_formed s"
  by (induction s rule: well_formed.induct) (auto simp: is_high_def is_low_def)

lemma well_formed_js: "well_formed (js cs)"
proof (rule well_formed_low, rule ballI)
  fix c assume "c \<in> set (js cs)"
  then obtain d where "c = of_nat (of_char d)" by (auto simp: js_def)
  then show "unat c < 0xD800" using unat_js_char[of d] by simp
qed

lemma upper_case_encoded:
  "encodeUrl (js ''HTTPS://Example.com/x'') = js ''SFRUUFM6Ly9FeGFtcGxlLmNvbS94''"
  by (simp add: encodeUrl_def js_def utf8_bytes_def is_high_def is_low_def b64_char_def)

lemma upper_case_scheme:
  "\<not> startsWith (js ''HTTPS://Example.com/x'') (js ''http://'')"
  "\<not> startsWith (js ''HTTPS://Example.com/x'') (js ''https://'')"
  by (simp_all add: startsWith_def js_def)

text \<open>
  Claim C5, as the code has it. \<^verbatim>\<open>decodeUrl\<close> accepts a decoded string only when it begins
  with \<^verbatim>\<open>http://\<close> or \<^verbatim>\<open>https://\<close> in lower case, while \<^verbatim>\<open>encodeUrl\<close> encodes any string.
  The absolute URL \<^verbatim>\<open>HTTPS://Example.com/x\<close>, whose scheme is https, has the fingerprint
  \<^verbatim>\<open>SFRUUFM6Ly9FeGFtcGxlLmNvbS94\<close>, and decoding that fingerprint gives \<^verbatim>\<open>null\<close> whatever the
  URL constructor does, not the URL.
\<close>

theorem decode_upper_case_scheme_counterexample:
  "encodeUrl (js ''HTTPS://Example.com/x'') = js ''SFRUUFM6Ly9FeGFtcGxlLmNvbS94''
   \<and> (\<forall>U. decodeUrl U (js ''SFRUUFM6Ly9FeGFtcGxlLmNvbS94'') = None)"
proof -
  have "decodeUrl U (encodeUrl (js ''HTTPS://Example.com/x'')) = None" for U
    by (simp add: decodeUrl_encodeUrl[OF well_formed_js] upper_case_scheme)
  then show ?thesis by (simp add: upper_case_encoded)
qed

text \<open>
  Claim C5, amended. Let \<open>u\<close> be a string without a surrogate on its own, as is every string
  that the proxy obtains by decoding bytes. \<^verbatim>\<open>decodeUrl(encodeUrl(u))\<close> is \<open>u\<close> exactly when
  \<open>u\<close> begins with \<^verbatim>\<open>http://\<close> or \<^verbatim>\<open>https://\<close> in lower case and \<^verbatim>\<open>new URL\<close> accepts it;
  for every other \<open>u\<close> it is \<^verbatim>\<open>null\<close>.
\<close>

theorem decode_encode_url:
  assumes "well_formed u"
  shows "decodeUrl U (encodeUrl u) =
           (if (startsWith u (js ''http://'') \<or> startsWith u (js ''https://'')) \<and> U u \<noteq> None
            then Some u else None)"
  using decodeUrl_encodeUrl[OF assms, of U] by auto

theorem decode_encode_url_witness:
  "well_formed (js ''https://www.tiktok.com'')
   \<and> decodeUrl plain_url (encodeUrl (js ''https://www.tiktok.com'')) =
       Some (js ''https://www.tiktok.com'')"
proof -
  have s: "startsWith (js ''https://www.tiktok.com'') (js ''https://'')"
    using startsWith_append[of "js ''https://''" "js ''www.tiktok.com''"]
    by (simp add: js_append[symmetric])
  have p: "plain_url (js ''https://www.tiktok.com'') \<noteq> None"
    by code_simp
  show ?thesis
    using decode_encode_url[where U = plain_url, OF well_formed_js, of "''https://www.tiktok.com''"]
    by (simp add: s p well_formed_js)
qed


subsection \<open>Redirects\<close>






lemma proxied_reference_encoded:
  "encodeUrl proxied_reference =
     js ''aHR0cDovL2xvY2FsaG9zdDozMDAzL2kucG5nP19fY3BvPWFIUjBjSE02THk5aExtTnZiUzlwTG5CdVp3''"
  by (simp add: proxied_reference_def encodeUrl_def js_def utf8_bytes_def is_high_def
      is_low_def b64_char_def)

lemma proxied_reference_parsed:
  "plain_url proxied_reference =
     Some \<lparr>href = proxied_reference, protocol = js ''http:'', hostname = js ''localhost'',
           origin = js ''http://localhost:3003'', pathname = js ''/i.png'',
           search = js ''?__cpo=aHR0cHM6Ly9hLmNvbS9pLnBuZw''\<rparr>"
  by code_simp

lemma proxied_reference_absolute: "absolutize css_base proxied_reference = proxied_reference"
  by code_simp

lemma proxied_reference_plain:
  "\<not> (proxied_reference = [] \<or> startsWith proxied_reference (js ''data:'')
      \<or> startsWith proxied_reference (js ''blob:'')
      \<or> startsWith proxied_reference (js ''javascript:'')
      \<or> startsWith proxied_reference (js ''#''))"
  by code_simp

subsection \<open>Rewriting an already rewritten reference\<close>

text \<open>
  Claim C7 fails on the code. \<^verbatim>\<open>toProxyUrl\<close> of \<^verbatim>\<open>rewriteUrls\<close> and the callbacks of
  \<^verbatim>\<open>rewriteCss\<close> have no \<^verbatim>\<open>__cpo=\<close> test (the client-side \<^verbatim>\<open>toProxyUrl\<close> of the injected
  script has one): a reference that already is a proxy URL is encoded once more and gets a
  second \<^verbatim>\<open>__cpo\<close> parameter, both in an HTML attribute and in a CSS \<^verbatim>\<open>url(...)\<close>.
\<close>

theorem html_rewriter_reproxies:
  \<open>js_includes proxied_reference (js ''__cpo='')
   \<and> toProxyUrl plain_url css_base (js ''http://localhost:3003'') proxied_reference =
       js ''http://localhost:3003'' @ js ''/i.png'' @ js ''?__cpo=aHR0cHM6Ly9hLmNvbS9pLnBuZw''
         @ js ''&'' @ js ''__cpo=''
         @ js ''aHR0cDovL2xvY2FsaG9zdDozMDAzL2kucG5nP19fY3BvPWFIUjBjSE02THk5aExtTnZiUzlwTG5CdVp3''
   \<and> rewriteCssUrl plain_url css_base (js ''http://localhost:3003'')
         (js ''url("'' @ proxied_reference @ js ''")'') proxied_reference =
       js ''url("'' @ js ''http://localhost:3003'' @ js ''/i.png''
         @ js ''?__cpo=aHR0cHM6Ly9hLmNvbS9pLnBuZw'' @ js ''&'' @ js ''__cpo=''
         @ js ''aHR0cDovL2xvY2FsaG9zdDozMDAzL2kucG5nP19fY3BvPWFIUjBjSE02THk5aExtTnZiUzlwTG5CdVp3''
         @ js ''")''\<close>
proof -
  have a: "js_includes proxied_reference (js ''__cpo='')" by code_simp
  have n: "js ''?__cpo=aHR0cHM6Ly9hLmNvbS9pLnBuZw'' \<noteq> []" by (simp add: js_def)
  have d: "\<not> startsWith proxied_reference (js ''data:'')"
    using proxied_reference_plain by simp
  have p: "proxyUrlOf plain_url (js ''http://localhost:3003'') proxied_reference =
      js ''http://localhost:3003'' @ js ''/i.png'' @ js ''?__cpo=aHR0cHM6Ly9hLmNvbS9pLnBuZw''
         @ js ''&'' @ js ''__cpo=''
         @ js ''aHR0cDovL2xvY2FsaG9zdDozMDAzL2kucG5nP19fY3BvPWFIUjBjSE02THk5aExtTnZiUzlwTG5CdVp3''"
    using n by (simp add: proxyUrlOf_def proxied_reference_parsed proxied_reference_encoded)
  have "toProxyUrl plain_url css_base (js ''http://localhost:3003'') proxied_reference =
      proxyUrlOf plain_url (js ''http://localhost:3003'') proxied_reference"
    using proxied_reference_plain by (simp add: toProxyUrl_def proxied_reference_absolute)
  moreover have "rewriteCssUrl plain_url css_base (js ''http://localhost:3003'') m
      proxied_reference =
      js ''url(\"'' @ proxyUrlOf plain_url (js ''http://localhost:3003'') proxied_reference
        @ js ''\")''" for m
    using d by (simp add: rewriteCssUrl_def proxied_reference_absolute)
  ultimately show ?thesis
    using a by (simp only: p) simp
qed

subsection \<open>A decoded target on localhost\<close>

text \<open>
  Claim C8 fails on the code. When the decoded target names localhost and neither the
  \<^verbatim>\<open>Referer\<close> nor the base URL map gives another base, the target is left as it is and the
  handler fetches it: here \<^verbatim>\<open>http://localhost:3003/x\<close>, the address of the proxy itself.
  (The branch for relative requests refuses a localhost base; this branch has no such
  test.)
\<close>

theorem localhost_target_is_fetched:
  "map_option fst (proxyRequest plain_url Map.empty local_request) =
     Some (FetchTarget (js ''http://localhost:3003/x''))
   \<and> map_option hostname (plain_url (js ''http://localhost:3003/x'')) = Some (js ''localhost'')"
  by code_simp


subsection \<open>Derived client identity\<close>




lemma autoClientId_cong:
  "sourceIp r1 = sourceIp r2 \<Longrightarrow> agentPrefix r1 = agentPrefix r2 \<Longrightarrow> autoClientId r1 = autoClientId r2"
  by (simp add: autoClientId_def)








text \<open>
  The derived id tells addresses apart: the same request from another address gets another
  client id.
\<close>

lemma derived_ids_differ:
  "autoClientId (anonymous_request Client_id_other (Some (js ''198.51.100.7''))) =
     js ''auto_MTk4LjUxLjEwMC43fE1vemlsbGEvNS''
   \<and> autoClientId (anonymous_request Client_id_other None) =
     js ''auto_MjAzLjAuMTEzLjl8TW96aWxsYS81Lj''
   \<and> autoClientId (anonymous_request Client_id_other (Some (js ''198.51.100.7''))) \<noteq>
     autoClientId (anonymous_request Client_id_other None)"
  by (simp add: autoClientId_def sourceIp_def agentPrefix_def anonymous_request_def truthy_def
      js_def utf8_bytes_def is_high_def is_low_def b64_char_def)

end
